theory Spec2Isabelle
  imports Main "HOL-Library.Word"
begin

unbundle bit_operations_syntax

section \<open>Bytes, error codes and exceptions\<close>

text \<open>
  A byte is a \<^typ>\<open>char\<close>: the C++ sources hold keyword names, type tags, record markers
  and array bodies in \<open>char\<close> / \<open>unsigned char\<close> buffers. A 32-bit \<open>int\<close> is a
  \<^typ>\<open>32 word\<close>, read as a signed value with \<^const>\<open>sint\<close>.
\<close>

type_synonym byte = char
type_synonym int32 = "32 word"

text \<open>
  The return codes of the C interface (\<open>ecl3/common.h\<close>). \<open>ECL3_OK\<close> is the value that
  C tests as false in \<open>if (err)\<close>.
\<close>

datatype ecl3_errno = ECL3_OK | ECL3_INVALID_ARGS | ECL3_UNSUPPORTED

text \<open>
  The C++ exceptions that leave the reader and \<open>readall\<close>, one constructor per exception
  class, carrying what the source puts into it. \<open>Ios_failure\<close> is \<open>std::ios::failure\<close>
  (the stream is opened with exceptions on failbit, badbit and eofbit), \<open>Length_error\<close> is
  what \<open>std::vector::resize\<close> raises for a negative size converted to \<open>size_t\<close>,
  \<open>Assertion_failed\<close> is a failed \<open>assert\<close>, and \<open>Out_of_bounds\<close> marks a \<open>memcpy\<close>
  outside its buffer, which C++ leaves undefined.
\<close>

datatype error =
    Ios_failure
  | Head_tail_error int int
  | Header_error string
  | Invalid_argument string
  | Length_error
  | Runtime_error string
  | Assertion_failed
  | Out_of_bounds

section \<open>Type tags and element translation (keyword.h)\<close>

text \<open>
  \<open>enum ecl3_typeids\<close>: the enumerators \<open>ECL3_C001\<close> ... \<open>ECL3_C099\<close> are the values
  \<open>ECL3_C0NN n\<close> with \<open>1 \<le> n \<le> 99\<close>. In C the enumerator's value is the packed 4-byte
  tag (\<open>ECL3_MAKE_KWENUM\<close>); \<open>ecl3_type_name\<close> gives the tag back.
\<close>

datatype ecl3_typeids =
    ECL3_INTE | ECL3_REAL | ECL3_DOUB | ECL3_CHAR | ECL3_MESS | ECL3_LOGI | ECL3_X231
  | ECL3_C0NN nat

definition digit_val :: "char \<Rightarrow> nat option" where
  "digit_val c =
     (let n = (of_char c :: nat) in if 48 \<le> n \<and> n \<le> 57 then Some (n - 48) else None)"

text \<open>
  \<open>ecl3_keyword_type\<close> (named \<open>ecl3_typeid\<close> in keyword.h and io.hpp): the switch accepts
  exactly the 4-byte tags of the enumerators and answers \<open>ECL3_INVALID_ARGS\<close> for every
  other tag. The result is the error code, or the type written to \<open>*type\<close> with
  \<open>ECL3_OK\<close>.
\<close>

definition ecl3_typeid :: "string \<Rightarrow> ecl3_errno + ecl3_typeids" where
  "ecl3_typeid str =
     (let kw = take 4 str in
      if kw = ''INTE'' then Inr ECL3_INTE
      else if kw = ''REAL'' then Inr ECL3_REAL
      else if kw = ''DOUB'' then Inr ECL3_DOUB
      else if kw = ''CHAR'' then Inr ECL3_CHAR
      else if kw = ''MESS'' then Inr ECL3_MESS
      else if kw = ''LOGI'' then Inr ECL3_LOGI
      else if kw = ''X231'' then Inr ECL3_X231
      else if length kw = 4 \<and> take 2 kw = ''C0'' then
        (case (digit_val (kw ! 2), digit_val (kw ! 3)) of
           (Some a, Some b) \<Rightarrow>
             if 1 \<le> 10 * a + b then Inr (ECL3_C0NN (10 * a + b))
             else Inl ECL3_INVALID_ARGS
         | _ \<Rightarrow> Inl ECL3_INVALID_ARGS)
      else Inl ECL3_INVALID_ARGS)"

text \<open>
  Modelled from the spec: \<open>ecl3_type_size\<close> is declared in keyword.h and its definition is
  not among the sources. Element size 4 for \<open>INTE\<close>, \<open>REAL\<close>, \<open>LOGI\<close>, 8 for \<open>DOUB\<close> and
  \<open>CHAR\<close>, 0 for \<open>MESS\<close>, N for \<open>C0NN\<close>; \<open>X231\<close> is reserved and unsupported.
\<close>

definition ecl3_type_size :: "ecl3_typeids \<Rightarrow> ecl3_errno \<times> nat" where
  "ecl3_type_size t =
     (case t of
        ECL3_INTE \<Rightarrow> (ECL3_OK, 4)
      | ECL3_REAL \<Rightarrow> (ECL3_OK, 4)
      | ECL3_DOUB \<Rightarrow> (ECL3_OK, 8)
      | ECL3_CHAR \<Rightarrow> (ECL3_OK, 8)
      | ECL3_MESS \<Rightarrow> (ECL3_OK, 0)
      | ECL3_LOGI \<Rightarrow> (ECL3_OK, 4)
      | ECL3_X231 \<Rightarrow> (ECL3_UNSUPPORTED, 0)
      | ECL3_C0NN n \<Rightarrow> if 1 \<le> n \<and> n \<le> 99 then (ECL3_OK, n) else (ECL3_INVALID_ARGS, 0))"

text \<open>
  Modelled from the spec: \<open>ecl3_block_size\<close> is declared in keyword.h and its definition is
  not among the sources. 105 (\<open>ECL3_BLOCK_SIZE_STRING\<close>) for the string-like tags, 1000
  (\<open>ECL3_BLOCK_SIZE_NUMERIC\<close>) for all others.
\<close>

definition ecl3_block_size :: "ecl3_typeids \<Rightarrow> ecl3_errno \<times> int" where
  "ecl3_block_size t =
     (case t of
        ECL3_CHAR \<Rightarrow> (ECL3_OK, 105)
      | ECL3_C0NN n \<Rightarrow> (ECL3_OK, 105)
      | _ \<Rightarrow> (ECL3_OK, 1000))"

text \<open>
  \<open>byteswap sz n src\<close> reverses the bytes of each of the first \<open>n\<close> elements of \<open>sz\<close> bytes:
  the translation between big-endian disk order and a little-endian host, the byte order
  of the machines the repository is built and tested on.
\<close>

definition byteswap :: "nat \<Rightarrow> nat \<Rightarrow> byte list \<Rightarrow> byte list" where
  "byteswap sz n src = concat (map (\<lambda>i. rev (take sz (drop (i * sz) src))) [0..<n])"

text \<open>
  Modelled from the spec: \<open>ecl3_get_native\<close> is declared in keyword.h and its definition is
  not among the sources. It copies \<open>elems\<close> elements from \<open>src\<close>, swapping the byte order
  of the numeric types from big-endian to the host's; \<open>CHAR\<close> and \<open>C0NN\<close> are copied as
  they are, \<open>MESS\<close> has no bytes, \<open>X231\<close> is unsupported. The result is the error code and
  the bytes stored at \<open>dst\<close>. The C function loads \<open>elems\<close> elements whatever \<open>src\<close>
  holds; of a shorter \<open>src\<close> the model translates the bytes that are there.
\<close>

definition ecl3_get_native :: "byte list \<Rightarrow> ecl3_typeids \<Rightarrow> nat \<Rightarrow> ecl3_errno \<times> byte list" where
  "ecl3_get_native src fmt elems =
     (case fmt of
        ECL3_INTE \<Rightarrow> (ECL3_OK, byteswap 4 elems src)
      | ECL3_REAL \<Rightarrow> (ECL3_OK, byteswap 4 elems src)
      | ECL3_DOUB \<Rightarrow> (ECL3_OK, byteswap 8 elems src)
      | ECL3_CHAR \<Rightarrow> (ECL3_OK, take (8 * elems) src)
      | ECL3_MESS \<Rightarrow> (ECL3_OK, [])
      | ECL3_LOGI \<Rightarrow> (ECL3_OK, byteswap 4 elems src)
      | ECL3_X231 \<Rightarrow> (ECL3_UNSUPPORTED, [])
      | ECL3_C0NN n \<Rightarrow>
          if 1 \<le> n \<and> n \<le> 99 then (ECL3_OK, take (n * elems) src)
          else (ECL3_INVALID_ARGS, []))"

text \<open>The value of a 32-bit integer object whose four bytes are in host order.\<close>

definition load_int32 :: "byte list \<Rightarrow> int32" where
  "load_int32 bs =
     push_bit 24 (of_char (bs ! 3)) OR push_bit 16 (of_char (bs ! 2))
       OR push_bit 8 (of_char (bs ! 1)) OR of_char (bs ! 0)"

text \<open>The bytes of a 32-bit integer object in host order (\<open>memcpy\<close> from its address).\<close>

definition store_int32 :: "int32 \<Rightarrow> byte list" where
  "store_int32 w =
     [char_of (unat w), char_of (unat (drop_bit 8 w)),
      char_of (unat (drop_bit 16 w)), char_of (unat (drop_bit 24 w))]"

text \<open>
  \<open>std::int32_t x; ecl3_get_native(&x, src, ECL3_INTE, 1)\<close>: the value of \<open>x\<close> afterwards.
\<close>

definition get_native_int32 :: "byte list \<Rightarrow> int32" where
  "get_native_int32 src = load_int32 (snd (ecl3_get_native src ECL3_INTE 1))"

text \<open>
  \<open>ecl3_array_header\<close>: the keyword is bytes 0..7, the count the big-endian integer in
  bytes 8..11, the type bytes 12..15. It returns \<open>ECL3_OK\<close> on every path.
\<close>

definition ecl3_array_header :: "byte list \<Rightarrow> ecl3_errno \<times> string \<times> string \<times> int32" where
  "ecl3_array_header src =
     (let kw = take 8 src;
          tmp = get_native_int32 (drop 8 src);
          type = take 4 (drop 12 src);
          count = tmp
      in (ECL3_OK, kw, type, count))"

text \<open>
  Modelled from the spec: \<open>ecl3_array_body\<close> is declared in keyword.h and its definition is
  not among the sources. It translates \<open>min elems chunk_size\<close> elements of \<open>type\<close> from
  \<open>src\<close> and reports that number in \<open>count\<close>; it fails as \<open>ecl3_get_native\<close> does. The
  result is the error code, the bytes stored at \<open>dst\<close> and \<open>count\<close>.
\<close>

definition ecl3_array_body ::
  "byte list \<Rightarrow> ecl3_typeids \<Rightarrow> int \<Rightarrow> int \<Rightarrow> ecl3_errno \<times> byte list \<times> int" where
  "ecl3_array_body src type elems chunk_size =
     (let len = min elems chunk_size;
          (err, dst) = ecl3_get_native src type (nat len)
      in if err = ECL3_OK then (ECL3_OK, dst, len) else (err, [], 0))"

section \<open>The summary keyword classifier (summary.cpp)\<close>

definition WGNAMES :: string where "WGNAMES = ''WGNAMES ''"
definition NUMS :: string where "NUMS = ''NUMS    ''"
definition LGRS :: string where "LGRS = ''LGRS    ''"
definition NUMLX :: string where "NUMLX = ''NUMLX   ''"
definition NUMLY :: string where "NUMLY = ''NUMLY   ''"
definition NUMLZ :: string where "NUMLZ = ''NUMLZ   ''"

definition ecl3_params_partial_identifiers :: "string list" where
  "ecl3_params_partial_identifiers = [WGNAMES, NUMS, LGRS, NUMLX, NUMLY, NUMLZ]"

text \<open>
  \<open>ecl3_params_identifies\<close>, for keywords of 8 bytes as they stand in the file. The first
  switch returns in every case but \<open>L\<close>, \<open>N\<close> and \<open>S\<close>, which are handled after it.
\<close>

definition ecl3_params_identifies :: "string \<Rightarrow> string \<Rightarrow> int" where
  "ecl3_params_identifies type keyword =
     (let id = take 8 type in
      if keyword ! 0 = CHR ''A'' then (if id = NUMS then 1 else 0)
      else if keyword ! 0 = CHR ''B'' then (if id = NUMS then 1 else 0)
      else if keyword ! 0 = CHR ''C'' then (if id = WGNAMES \<or> id = NUMS then 2 else 0)
      else if keyword ! 0 = CHR ''G'' then
        (if keyword ! 1 = CHR ''M'' then 0
         else if id = WGNAMES then 1 else 0)
      else if keyword ! 0 = CHR ''W'' then
        (if keyword ! 1 = CHR ''M'' then 0
         else if take 8 keyword = ''WNEWTON '' then 0
         else if id = WGNAMES then 1 else 0)
      else if keyword ! 0 = CHR ''P'' then (if id = WGNAMES then 1 else 0)
      else if keyword ! 0 = CHR ''R'' then (if id = NUMS then 1 else 0)
      else if keyword ! 0 \<noteq> CHR ''L'' \<and> keyword ! 0 \<noteq> CHR ''N'' \<and> keyword ! 0 \<noteq> CHR ''S''
        then 0
      else if keyword ! 0 = CHR ''L'' then
        (if keyword ! 1 = CHR ''B'' then
           (if id = LGRS \<or> id = NUMLX \<or> id = NUMLY \<or> id = NUMLZ then 4 else 0)
         else if keyword ! 1 = CHR ''C'' then
           (if id = LGRS \<or> id = WGNAMES \<or> id = NUMLX \<or> id = NUMLY \<or> id = NUMLZ
            then 4 else 0)
         else if keyword ! 1 = CHR ''W'' then
           (if id = LGRS \<or> id = WGNAMES then 2 else 0)
         else 0)
      else
        (let key = take 8 keyword in
         if key ! 0 = CHR ''N'' then
           (if key = ''NEWTON  '' then 0
            else if key = ''NAIMFRAC'' then 0
            else if key = ''NLINEARS'' then 0
            else if key = ''NLINSMIN'' then 0
            else if key = ''NLINSMAX'' then 0
            else if id = WGNAMES then 1 else 0)
         else if key ! 0 = CHR ''S'' then
           (if key = ''STEPTYPE'' then 0
            else let prefix = take 4 key in
              if prefix = ''SGAS'' then 0
              else if prefix = ''SOIL'' then 0
              else if prefix = ''SWAT'' then 0
              else if id = WGNAMES \<or> id = NUMS then 2 else 0)
         else 0))"

section \<open>The column plan (columns)\<close>

definition is_void_str :: "string \<Rightarrow> bool" where
  "is_void_str str = (str = '':+:+:+:+'' \<or> str = ''        '')"

definition is_void_int :: "int32 \<Rightarrow> bool" where
  "is_void_int i = (sint i < 0)"

text \<open>Decimal output of \<open>operator<<\<close> for a 32-bit integer.\<close>

fun string_of_nat :: "nat \<Rightarrow> string" where
  "string_of_nat n =
     (if n < 10 then [''0123456789'' ! n]
      else string_of_nat (n div 10) @ [''0123456789'' ! (n mod 10)])"

declare string_of_nat.simps [simp del]

definition string_of_int32 :: "int32 \<Rightarrow> string" where
  "string_of_int32 i =
     (if sint i < 0 then CHR ''-'' # string_of_nat (nat (- sint i))
      else string_of_nat (nat (sint i)))"

text \<open>
  One qualifier of the loop body of \<open>columns\<close>: when the specifier applies, a void entry
  ends the iteration (\<open>continue\<close>, here \<open>None\<close>), any other entry is appended to the name
  after the separator.
\<close>

definition qualify_str :: "bool \<Rightarrow> string \<Rightarrow> string list \<Rightarrow> nat \<Rightarrow> string \<Rightarrow> string option" where
  "qualify_str applies sep qs i ident =
     (if applies then
        (let q = qs ! i in if is_void_str q then None else Some (ident @ sep @ q))
      else Some ident)"

definition qualify_int :: "bool \<Rightarrow> string \<Rightarrow> int32 list \<Rightarrow> nat \<Rightarrow> string \<Rightarrow> string option" where
  "qualify_int applies sep qs i ident =
     (if applies then
        (let q = qs ! i in
         if is_void_int q then None else Some (ident @ sep @ string_of_int32 q))
      else Some ident)"

text \<open>
  The name built for entry \<open>i\<close>, up to the duplicate test: \<open>None\<close> when one of the
  \<open>is_void\<close> tests skipped the entry. The lists are the Python lists, already of the
  element types the source casts to.
\<close>

definition column_name ::
  "string list \<Rightarrow> string list \<Rightarrow> int32 list \<Rightarrow> string list \<Rightarrow> int32 list \<Rightarrow> int32 list
     \<Rightarrow> int32 list \<Rightarrow> string \<Rightarrow> nat \<Rightarrow> string option" where
  "column_name keywords wgnames nums lgrs numlx numly numlz dtype_separator i =
     (let kw = keywords ! i in
      case qualify_str (ecl3_params_identifies WGNAMES kw \<noteq> 0)
             dtype_separator wgnames i kw of
        None \<Rightarrow> None
      | Some id1 \<Rightarrow>
      (case qualify_int (ecl3_params_identifies NUMS kw \<noteq> 0)
              dtype_separator nums i id1 of
        None \<Rightarrow> None
      | Some id2 \<Rightarrow>
      (case qualify_str (lgrs \<noteq> [] \<and> ecl3_params_identifies LGRS kw \<noteq> 0)
              dtype_separator lgrs i id2 of
        None \<Rightarrow> None
      | Some id3 \<Rightarrow>
      (case qualify_int (numlx \<noteq> [] \<and> ecl3_params_identifies NUMLX kw \<noteq> 0)
              dtype_separator numlx i id3 of
        None \<Rightarrow> None
      | Some id4 \<Rightarrow>
      (case qualify_int (numly \<noteq> [] \<and> ecl3_params_identifies NUMLY kw \<noteq> 0)
              dtype_separator numly i id4 of
        None \<Rightarrow> None
      | Some id5 \<Rightarrow>
          qualify_int (numlz \<noteq> [] \<and> ecl3_params_identifies NUMLZ kw \<noteq> 0)
            dtype_separator numlz i id5)))))"

text \<open>
  One iteration of the loop: a skipped entry and a name already in \<open>names\<close> leave the two
  vectors as they are, any other name is pushed with its index.
\<close>

definition columns_step ::
  "(nat \<Rightarrow> string option) \<Rightarrow> string list \<times> int list \<Rightarrow> nat \<Rightarrow> string list \<times> int list" where
  "columns_step name_of acc i =
     (case name_of i of
        None \<Rightarrow> acc
      | Some name \<Rightarrow>
          if name \<in> set (fst acc) then acc
          else (fst acc @ [name], snd acc @ [int i]))"

text \<open>
  \<open>columns\<close>. The assertions at its head are its contract on the list lengths; a call
  that breaks them is answered with \<open>Assertion_failed\<close>. Under them every index of the
  loop is in range.
\<close>

definition columns_asserts ::
  "string list \<Rightarrow> string list \<Rightarrow> int32 list \<Rightarrow> string list \<Rightarrow> int32 list \<Rightarrow> int32 list
     \<Rightarrow> int32 list \<Rightarrow> bool" where
  "columns_asserts keywords wgnames nums lgrs numlx numly numlz =
     (keywords \<noteq> [] \<and> wgnames \<noteq> [] \<and> nums \<noteq> []
      \<and> length keywords = length wgnames
      \<and> length keywords = length nums
      \<and> (lgrs = [] \<or> length keywords = length lgrs)
      \<and> (numlx = [] \<or> length keywords = length numlx)
      \<and> (numly = [] \<or> length keywords = length numly)
      \<and> (numlz = [] \<or> length keywords = length numlz))"

definition columns ::
  "string list \<Rightarrow> string list \<Rightarrow> int32 list \<Rightarrow> string list \<Rightarrow> int32 list \<Rightarrow> int32 list
     \<Rightarrow> int32 list \<Rightarrow> string \<Rightarrow> error + (string list \<times> int list)" where
  "columns keywords wgnames nums lgrs numlx numly numlz dtype_separator =
     (if \<not> columns_asserts keywords wgnames nums lgrs numlx numly numlz
      then Inl Assertion_failed
      else Inr (foldl
                  (columns_step
                     (column_name keywords wgnames nums lgrs numlx numly numlz dtype_separator))
                  ([], []) [0..<length keywords]))"

text \<open>
  The older revision of the binding (\<open>part_002\<close>) has the same loop with two differences:
  an entry of \<open>lgrs\<close> is cast to a 32-bit integer, and the name is pushed with no search
  of \<open>names\<close>.
\<close>

definition column_name_part_002 ::
  "string list \<Rightarrow> string list \<Rightarrow> int32 list \<Rightarrow> int32 list \<Rightarrow> int32 list \<Rightarrow> int32 list
     \<Rightarrow> int32 list \<Rightarrow> string \<Rightarrow> nat \<Rightarrow> string option" where
  "column_name_part_002 keywords wgnames nums lgrs numlx numly numlz dtype_separator i =
     (let kw = keywords ! i in
      case qualify_str (ecl3_params_identifies WGNAMES kw \<noteq> 0)
             dtype_separator wgnames i kw of
        None \<Rightarrow> None
      | Some id1 \<Rightarrow>
      (case qualify_int (ecl3_params_identifies NUMS kw \<noteq> 0)
              dtype_separator nums i id1 of
        None \<Rightarrow> None
      | Some id2 \<Rightarrow>
      (case qualify_int (lgrs \<noteq> [] \<and> ecl3_params_identifies LGRS kw \<noteq> 0)
              dtype_separator lgrs i id2 of
        None \<Rightarrow> None
      | Some id3 \<Rightarrow>
      (case qualify_int (numlx \<noteq> [] \<and> ecl3_params_identifies NUMLX kw \<noteq> 0)
              dtype_separator numlx i id3 of
        None \<Rightarrow> None
      | Some id4 \<Rightarrow>
      (case qualify_int (numly \<noteq> [] \<and> ecl3_params_identifies NUMLY kw \<noteq> 0)
              dtype_separator numly i id4 of
        None \<Rightarrow> None
      | Some id5 \<Rightarrow>
          qualify_int (numlz \<noteq> [] \<and> ecl3_params_identifies NUMLZ kw \<noteq> 0)
            dtype_separator numlz i id5)))))"

definition columns_step_part_002 ::
  "(nat \<Rightarrow> string option) \<Rightarrow> string list \<times> int list \<Rightarrow> nat \<Rightarrow> string list \<times> int list" where
  "columns_step_part_002 name_of acc i =
     (case name_of i of
        None \<Rightarrow> acc
      | Some name \<Rightarrow> (fst acc @ [name], snd acc @ [int i]))"

definition columns_asserts_part_002 ::
  "string list \<Rightarrow> string list \<Rightarrow> int32 list \<Rightarrow> int32 list \<Rightarrow> int32 list \<Rightarrow> int32 list
     \<Rightarrow> int32 list \<Rightarrow> bool" where
  "columns_asserts_part_002 keywords wgnames nums lgrs numlx numly numlz =
     (keywords \<noteq> [] \<and> wgnames \<noteq> [] \<and> nums \<noteq> []
      \<and> length keywords = length wgnames
      \<and> length keywords = length nums
      \<and> (lgrs = [] \<or> length keywords = length lgrs)
      \<and> (numlx = [] \<or> length keywords = length numlx)
      \<and> (numly = [] \<or> length keywords = length numly)
      \<and> (numlz = [] \<or> length keywords = length numlz))"

definition columns_part_002 ::
  "string list \<Rightarrow> string list \<Rightarrow> int32 list \<Rightarrow> int32 list \<Rightarrow> int32 list \<Rightarrow> int32 list
     \<Rightarrow> int32 list \<Rightarrow> string \<Rightarrow> error + (string list \<times> int list)" where
  "columns_part_002 keywords wgnames nums lgrs numlx numly numlz dtype_separator =
     (if \<not> columns_asserts_part_002 keywords wgnames nums lgrs numlx numly numlz
      then Inl Assertion_failed
      else Inr (foldl
                  (columns_step_part_002
                     (column_name_part_002 keywords wgnames nums lgrs numlx numly numlz
                        dtype_separator))
                  ([], []) [0..<length keywords]))"

section \<open>The array reader (io.hpp)\<close>

record raw_array =
  keyword :: string
  type :: string
  count :: int32
  body :: "byte list"

definition empty :: "raw_array \<Rightarrow> bool" where
  "empty a = (count a = - 1)"

text \<open>
  \<open>stream_reader\<close>: the file is the list of bytes not yet read. A \<open>read\<close> of \<open>n\<close> bytes
  that finds fewer sets eofbit and failbit, which raises \<open>std::ios::failure\<close>; it has then
  taken every byte that was left. A file is a finite list of bytes: failures of the
  device (badbit) are outside the model. The field \<open>last\<close> of the source is
  \<open>last_array\<close> here.
\<close>

record stream_reader =
  stream :: "byte list"
  last_array :: raw_array
  ungetted :: bool

definition read :: "nat \<Rightarrow> byte list \<Rightarrow> (byte list \<times> byte list) option" where
  "read n s = (if n \<le> length s then Some (take n s, drop n s) else None)"

definition check_headtail :: "byte list \<Rightarrow> byte list \<Rightarrow> error option" where
  "check_headtail head tail =
     (if head = tail then None
      else let h = get_native_int32 head; t = get_native_int32 tail
           in Some (Head_tail_error (sint h) (sint t)))"

text \<open>
  \<open>read_head\<close>: when the first read fails the stream is at its end (\<open>eof()\<close> holds after
  every short read of a file), so the catch block sets \<open>count = -1\<close> and returns; nothing
  else of \<open>last\<close> changes.
\<close>

definition read_head :: "stream_reader \<Rightarrow> error + stream_reader" where
  "read_head r =
     (case read 4 (stream r) of
        None \<Rightarrow> Inr (r\<lparr>stream := [], last_array := (last_array r)\<lparr>count := - 1\<rparr>\<rparr>)
      | Some (head, s1) \<Rightarrow>
     (case read 16 s1 of
        None \<Rightarrow> Inl Ios_failure
      | Some (header, s2) \<Rightarrow>
     (case read 4 s2 of
        None \<Rightarrow> Inl Ios_failure
      | Some (tail, s3) \<Rightarrow>
     (case check_headtail head tail of
        Some e \<Rightarrow> Inl e
      | None \<Rightarrow>
          (case ecl3_array_header header of
             (err, kw, ty, cnt) \<Rightarrow>
               if err \<noteq> ECL3_OK then Inl (Header_error ''error parsing header'')
               else Inr (r\<lparr>stream := s3,
                           last_array := (last_array r)\<lparr>keyword := kw, type := ty, count := cnt\<rparr>\<rparr>))))))"

text \<open>
  The loop of \<open>read_body\<close>. \<open>elems\<close> is the record's head, a number of bytes; the body
  grows by that many (zero) bytes and \<open>ecl3_array_body\<close> then stores the translated
  elements at its old end. The source compares the record's length with nothing: where
  the record holds fewer bytes than the elements translated, \<open>ecl3_array_body\<close> loads
  past the buffer and stores past the body, the vector keeps its size and the loop goes
  on. The model keeps the bytes stored inside the body; bytes past the buffer's end are
  absent from it, so a body byte translated from them has no meaning. Memory is taken
  to suffice for every record length that is not negative.
\<close>

function read_body_loop ::
  "ecl3_typeids \<Rightarrow> int \<Rightarrow> int \<Rightarrow> byte list \<Rightarrow> byte list \<Rightarrow> error + (byte list \<times> byte list)" where
  "read_body_loop ty blocksize remaining s bdy =
     (if remaining > 0 then
        (case read 4 s of
           None \<Rightarrow> Inl Ios_failure
         | Some (head, s1) \<Rightarrow>
             let elems = sint (get_native_int32 head) in
             if elems < 0 then Inl Length_error
             else
        (case read (nat elems) s1 of
           None \<Rightarrow> Inl Ios_failure
         | Some (buffer, s2) \<Rightarrow>
        (case read 4 s2 of
           None \<Rightarrow> Inl Ios_failure
         | Some (tail, s3) \<Rightarrow>
        (case check_headtail head tail of
           Some e \<Rightarrow> Inl e
         | None \<Rightarrow>
             (case ecl3_array_body buffer ty remaining blocksize of
                (err, dst, cnt) \<Rightarrow>
                  if err \<noteq> ECL3_OK then Inl (Runtime_error ''error parsing array body'')
                  else read_body_loop ty blocksize (remaining - cnt) s3
                         (bdy @ take (nat elems) (dst @ replicate (nat elems) (CHR 0x00))))))))
      else if remaining \<noteq> 0 then Inl (Runtime_error ''array not terminated correctly'')
      else Inr (s, bdy))"
  by pat_completeness auto
termination
  by (relation "measure (\<lambda>(ty, blocksize, remaining, s, bdy). length s)")
     (auto simp: read_def split: if_splits)

declare read_body_loop.simps [simp del]

definition read_body :: "stream_reader \<Rightarrow> error + stream_reader" where
  "read_body r =
     (case ecl3_typeid (type (last_array r)) of
        Inl err \<Rightarrow>
          Inl (Invalid_argument (''unknown type'' @ [CHR 0x27] @ type (last_array r) @ [CHR 0x27]))
      | Inr ty \<Rightarrow>
          (case read_body_loop ty (snd (ecl3_block_size ty))
                  (sint (count (last_array r))) (stream r) [] of
             Inl e \<Rightarrow> Inl e
           | Inr (s', bdy) \<Rightarrow>
               Inr (r\<lparr>stream := s', last_array := (last_array r)\<lparr>body := bdy\<rparr>\<rparr>)))"

text \<open>\<open>stream_reader::next\<close> and \<open>stream_reader::unget\<close>.\<close>

definition next_array :: "stream_reader \<Rightarrow> error + (raw_array \<times> stream_reader)" where
  "next_array r =
     (if ungetted r then Inr (last_array r, r\<lparr>ungetted := False\<rparr>)
      else
        (case read_head r of
           Inl e \<Rightarrow> Inl e
         | Inr r1 \<Rightarrow>
             if \<not> empty (last_array r1) then
               (case read_body r1 of
                  Inl e \<Rightarrow> Inl e
                | Inr r2 \<Rightarrow> Inr (last_array r2, r2))
             else Inr (last_array r1, r1)))"

definition unget :: "stream_reader \<Rightarrow> stream_reader" where
  "unget r = r\<lparr>ungetted := True\<rparr>"

text \<open>
  The constructor: a freshly opened reader holds the whole file, a default-constructed
  \<open>raw_array\<close> (\<open>count = 0\<close>, empty body, indeterminate keyword and type, given as
  parameters) and \<open>ungetted = false\<close>.
\<close>

definition open_reader :: "byte list \<Rightarrow> stream_reader" where
  "open_reader file =
     \<lparr>stream = file,
      last_array = \<lparr>keyword = replicate 8 (CHR 0x00), type = replicate 4 (CHR 0x00),
                    count = 0, body = []\<rparr>,
      ungetted = False\<rparr>"

section \<open>The summary matrix assembler (readall)\<close>

text \<open>
  \<open>expect\<close> raises unless the array's field is the expected string; \<open>end_report_step\<close>
  compares the eight bytes of the keyword with \<open>SEQHDR\<close>.
\<close>

definition expect :: "string \<Rightarrow> string \<Rightarrow> error option" where
  "expect expected str =
     (if length expected \<noteq> length str \<or> str \<noteq> expected
      then Some (Runtime_error (''expected '' @ expected @ '', was '' @ str))
      else None)"

definition end_report_step :: "raw_array \<Rightarrow> bool" where
  "end_report_step kw = (keyword kw = ''SEQHDR  '')"

text \<open>
  The \<open>write_item\<close> loop: for each position \<open>p\<close> the four bytes at offset \<open>4 * p\<close> of the
  \<open>PARAMS\<close> body. A position outside the body makes the \<open>memcpy\<close> read outside it.
\<close>

fun write_items :: "int list \<Rightarrow> byte list \<Rightarrow> byte list option" where
  "write_items [] src = Some []"
| "write_items (p # ps) src =
     (if p < 0 \<or> length src < nat p * 4 + 4 then None
      else (case write_items ps src of
              None \<Rightarrow> None
            | Some bs \<Rightarrow> Some (take 4 (drop (nat p * 4) src) @ bs)))"

text \<open>
  One pass through the body of the \<open>while (true)\<close> loop of \<open>readall\<close>, with the local
  \<open>report_step\<close>, the positions and the reader. It ends in \<open>break\<close>, in \<open>continue\<close>
  (after a \<open>SEQHDR\<close>, with the array read ahead pushed back), at \<open>++rows\<close> with the row
  written, or in an exception. The staging buffer (64 rows, doubled when full) and the
  allocator callback manage storage only: a row is the \<open>8 + 4 * |pos|\<close> bytes the body
  stores. No statement of the body assigns to \<open>report_step\<close>.
\<close>

datatype loop_step =
    Break
  | Continue stream_reader
  | Next_row stream_reader "byte list"
  | Throw error

definition readall_body :: "int32 \<Rightarrow> int list \<Rightarrow> stream_reader \<Rightarrow> loop_step" where
  "readall_body report_step pos r =
     (case next_array r of
        Inl e \<Rightarrow> Throw e
      | Inr (ministep, r1) \<Rightarrow>
          if empty ministep then Break
          else if end_report_step ministep then
            (case next_array r1 of
               Inl e \<Rightarrow> Throw e
             | Inr (a, r2) \<Rightarrow>
                 if empty a then
                   Throw (Runtime_error ''unexpected end-of-file, expected MINISTEP'')
                 else Continue (unget r2))
          else
            (case expect ''MINISTEP'' (keyword ministep) of
               Some e \<Rightarrow> Throw e
             | None \<Rightarrow>
            (case expect ''INTE'' (type ministep) of
               Some e \<Rightarrow> Throw e
             | None \<Rightarrow>
                 if length (body ministep) < 4 then Throw Out_of_bounds
                 else
                   let dst = store_int32 report_step @ take 4 (body ministep) in
            (case next_array r1 of
               Inl e \<Rightarrow> Throw e
             | Inr (params, r2) \<Rightarrow>
                 if empty params then
                   Throw (Runtime_error ''unexpected end-of-file, expected PARAMS'')
                 else
            (case expect ''PARAMS  '' (keyword params) of
               Some e \<Rightarrow> Throw e
             | None \<Rightarrow>
            (case write_items pos (body params) of
               None \<Rightarrow> Throw Out_of_bounds
             | Some items \<Rightarrow> Next_row r2 (dst @ items)))))))"

text \<open>
  The loop: the rows written so far are kept in order, and both ways round the loop
  pass \<open>report_step\<close> on as it is.
\<close>

function readall_loop ::
  "int32 \<Rightarrow> int list \<Rightarrow> stream_reader \<Rightarrow> byte list list \<Rightarrow> error + byte list list" where
  "readall_loop report_step pos r rows =
     (case readall_body report_step pos r of
        Break \<Rightarrow> Inr rows
      | Throw e \<Rightarrow> Inl e
      | Continue r' \<Rightarrow> readall_loop report_step pos r' rows
      | Next_row r' row \<Rightarrow> readall_loop report_step pos r' (rows @ [row]))"
  by pat_completeness auto
termination
proof (relation "measure (\<lambda>(report_step, pos, r, rows).
                   2 * length (stream r) + (if ungetted r then 1 else 0))")
  have loop: "length s' \<le> length s"
    if "read_body_loop ty blk rem s bdy = Inr (s', bdy')" for ty blk rem s bdy s' bdy'
    using that
  proof (induction ty blk rem s bdy rule: read_body_loop.induct)
    case (1 ty blocksize remaining s bdy)
    show ?case
    proof (cases "remaining > 0")
      case False
      with "1.prems" show ?thesis
        by (simp add: read_body_loop.simps split: if_splits)
    next
      case True
      with "1.prems" "1.IH" show ?thesis
        by (subst (asm) read_body_loop.simps)
           (fastforce simp: read_def Let_def split: option.splits if_splits prod.splits)
    qed
  qed
  have step: "\<not> ungetted r' \<and> length (stream r') \<le> length (stream r)
              \<and> (\<not> ungetted r \<and> \<not> empty a \<longrightarrow> length (stream r') < length (stream r))"
    if "next_array r = Inr (a, r')" for r a r'
  proof (cases "ungetted r")
    case True
    with that show ?thesis by (auto simp: next_array_def)
  next
    case False
    with that show ?thesis
      by (auto simp: next_array_def read_head_def read_body_def read_def Let_def empty_def
               split: if_splits sum.splits option.splits prod.splits dest!: loop)
  qed
  have two: "2 * length (stream r2) + 1 < 2 * length (stream r) + (if ungetted r then 1 else 0)
             \<and> \<not> ungetted r2"
    if "next_array r = Inr (a, r1)" "\<not> empty a" "next_array r1 = Inr (b, r2)" "\<not> empty b"
    for r a r1 b r2
    using step [OF that(1)] step [OF that(3)] that(2,4) by (cases "ungetted r") auto
  show "wf (measure (\<lambda>(report_step, pos, r, rows).
                   2 * length (stream r) + (if ungetted r then 1 else 0)))"
    by simp
  show "((report_step, pos, r', rows), report_step, pos, r, rows)
          \<in> measure (\<lambda>(report_step, pos, r, rows).
                   2 * length (stream r) + (if ungetted r then 1 else 0))"
    if "readall_body report_step pos r = Continue r'" for report_step pos r rows r'
  proof -
    from that obtain a r1 b r2 where
      "next_array r = Inr (a, r1)" "\<not> empty a" "next_array r1 = Inr (b, r2)" "\<not> empty b"
      "r' = unget r2"
      by (auto simp: readall_body_def Let_def
               split: sum.splits prod.splits if_splits option.splits)
    with two [of r a r1 b r2] show ?thesis by (simp add: unget_def)
  qed
  show "((report_step, pos, r', rows @ [row]), report_step, pos, r, rows)
          \<in> measure (\<lambda>(report_step, pos, r, rows).
                   2 * length (stream r) + (if ungetted r then 1 else 0))"
    if "readall_body report_step pos r = Next_row r' row" for report_step pos r rows r' row
  proof -
    from that obtain a r1 b where
      "next_array r = Inr (a, r1)" "\<not> empty a" "next_array r1 = Inr (b, r')" "\<not> empty b"
      by (auto simp: readall_body_def Let_def
               split: sum.splits prod.splits if_splits option.splits)
    with two [of r a r1 b r'] show ?thesis by simp
  qed
qed

declare readall_loop.simps [simp del]

text \<open>
  \<open>readall\<close>, from the bytes of a file that could be opened to the rows:
  \<open>report_step\<close> starts at 1, the first array must be \<open>SEQHDR\<close> of type \<open>INTE\<close>.
\<close>

definition readall :: "byte list \<Rightarrow> int list \<Rightarrow> error + byte list list" where
  "readall file pos =
     (let report_step = 1 in
      case next_array (open_reader file) of
        Inl e \<Rightarrow> Inl e
      | Inr (seqhdr, r1) \<Rightarrow>
          if empty seqhdr then
            Inl (Runtime_error ''no initial SEQHDR found, file seems broken'')
          else
            (case expect ''SEQHDR  '' (keyword seqhdr) of
               Some e \<Rightarrow> Inl e
             | None \<Rightarrow>
            (case expect ''INTE'' (type seqhdr) of
               Some e \<Rightarrow> Inl e
             | None \<Rightarrow> readall_loop report_step pos r1 [])))"

section \<open>Notions of the specification\<close>

text \<open>
  Entry \<open>i\<close> is the first one with its name: it has a name and no earlier entry has the
  same.
\<close>

definition first_named :: "(nat \<Rightarrow> string option) \<Rightarrow> nat \<Rightarrow> bool" where
  "first_named f i = (f i \<noteq> None \<and> (\<forall>j<i. f j \<noteq> f i))"

text \<open>
  A void column in the specification's words: a specifier that qualifies the keyword (and
  whose list is given, for the optional ones) holds a sentinel at that index, the string
  \<open>:+:+:+:+\<close> or eight spaces, or an integer below 0.
\<close>

definition spec_void_column ::
  "string list \<Rightarrow> string list \<Rightarrow> int32 list \<Rightarrow> string list \<Rightarrow> int32 list \<Rightarrow> int32 list
     \<Rightarrow> int32 list \<Rightarrow> nat \<Rightarrow> bool" where
  "spec_void_column keywords wgnames nums lgrs numlx numly numlz i =
     (let kw = keywords ! i in
        (ecl3_params_identifies WGNAMES kw \<noteq> 0
           \<and> (wgnames ! i = '':+:+:+:+'' \<or> wgnames ! i = ''        ''))
      \<or> (ecl3_params_identifies NUMS kw \<noteq> 0 \<and> sint (nums ! i) < 0)
      \<or> (lgrs \<noteq> [] \<and> ecl3_params_identifies LGRS kw \<noteq> 0
           \<and> (lgrs ! i = '':+:+:+:+'' \<or> lgrs ! i = ''        ''))
      \<or> (numlx \<noteq> [] \<and> ecl3_params_identifies NUMLX kw \<noteq> 0 \<and> sint (numlx ! i) < 0)
      \<or> (numly \<noteq> [] \<and> ecl3_params_identifies NUMLY kw \<noteq> 0 \<and> sint (numly ! i) < 0)
      \<or> (numlz \<noteq> [] \<and> ecl3_params_identifies NUMLZ kw \<noteq> 0 \<and> sint (numlz ! i) < 0))"

text \<open>
  A conforming body in the specification's words: each body record holds exactly the
  \<open>min(remaining, block_length)\<close> elements decoded from it, so its head is that number
  times the element size.
\<close>

function spec_exact_records :: "nat \<Rightarrow> int \<Rightarrow> int \<Rightarrow> byte list \<Rightarrow> bool" where
  "spec_exact_records sz blk remaining s =
     (if 0 < remaining \<and> 8 \<le> length s then
        sint (get_native_int32 (take 4 s)) = min remaining blk * int sz
        \<and> spec_exact_records sz blk (remaining - min remaining blk)
            (drop (8 + nat (min remaining blk) * sz) s)
      else True)"
  by pat_completeness auto
termination
  by (relation "measure (\<lambda>(sz, blk, remaining, s). length s)") auto

declare spec_exact_records.simps [simp del]

section \<open>Example files\<close>

text \<open>
  The file of one \<open>INTE\<close> array \<open>KEY\<close> with the two values 1 and 2: a header record of
  16 bytes and one body record of 8 bytes.
\<close>

definition inte_file :: "byte list" where
  "inte_file =
     [CHR 0x00, CHR 0x00, CHR 0x00, CHR 0x10] @ ''KEY     ''
       @ [CHR 0x00, CHR 0x00, CHR 0x00, CHR 0x02] @ ''INTE''
       @ [CHR 0x00, CHR 0x00, CHR 0x00, CHR 0x10]
     @ [CHR 0x00, CHR 0x00, CHR 0x00, CHR 0x08]
       @ [CHR 0x00, CHR 0x00, CHR 0x00, CHR 0x01, CHR 0x00, CHR 0x00, CHR 0x00, CHR 0x02]
       @ [CHR 0x00, CHR 0x00, CHR 0x00, CHR 0x08]"

definition inte_array :: raw_array where
  "inte_array =
     \<lparr>keyword = ''KEY     '', type = ''INTE'', count = 2,
      body = [CHR 0x01, CHR 0x00, CHR 0x00, CHR 0x00, CHR 0x02, CHR 0x00, CHR 0x00, CHR 0x00]\<rparr>"

text \<open>
  A file whose only array declares one \<open>INTE\<close> element and carries a body record of
  eight bytes.
\<close>

definition oversize_file :: "byte list" where
  "oversize_file =
     [CHR 0x00, CHR 0x00, CHR 0x00, CHR 0x10] @ ''KEY     ''
       @ [CHR 0x00, CHR 0x00, CHR 0x00, CHR 0x01] @ ''INTE''
       @ [CHR 0x00, CHR 0x00, CHR 0x00, CHR 0x10]
     @ [CHR 0x00, CHR 0x00, CHR 0x00, CHR 0x08]
       @ [CHR 0x00, CHR 0x00, CHR 0x00, CHR 0x01, CHR 0x00, CHR 0x00, CHR 0x00, CHR 0x02]
       @ [CHR 0x00, CHR 0x00, CHR 0x00, CHR 0x08]"

definition oversize_array :: raw_array where
  "oversize_array =
     \<lparr>keyword = ''KEY     '', type = ''INTE'', count = 1,
      body = [CHR 0x01, CHR 0x00, CHR 0x00, CHR 0x00, CHR 0x00, CHR 0x00, CHR 0x00, CHR 0x00]\<rparr>"

text \<open>
  A file whose only array declares two \<open>INTE\<close> elements and carries a body record of
  four bytes.
\<close>

definition undersize_file :: "byte list" where
  "undersize_file =
     [CHR 0x00, CHR 0x00, CHR 0x00, CHR 0x10] @ ''KEY     ''
       @ [CHR 0x00, CHR 0x00, CHR 0x00, CHR 0x02] @ ''INTE''
       @ [CHR 0x00, CHR 0x00, CHR 0x00, CHR 0x10]
     @ [CHR 0x00, CHR 0x00, CHR 0x00, CHR 0x04]
       @ [CHR 0x00, CHR 0x00, CHR 0x00, CHR 0x01]
       @ [CHR 0x00, CHR 0x00, CHR 0x00, CHR 0x04]"

definition undersize_array :: raw_array where
  "undersize_array =
     \<lparr>keyword = ''KEY     '', type = ''INTE'', count = 2,
      body = [CHR 0x01, CHR 0x00, CHR 0x00, CHR 0x00]\<rparr>"

text \<open>Header records only: no element, an unknown type tag, and the count \<open>-1\<close>.\<close>

definition zero_file :: "byte list" where
  "zero_file =
     [CHR 0x00, CHR 0x00, CHR 0x00, CHR 0x10] @ ''KEY     ''
       @ [CHR 0x00, CHR 0x00, CHR 0x00, CHR 0x00] @ ''INTE''
       @ [CHR 0x00, CHR 0x00, CHR 0x00, CHR 0x10]"

definition zero_array :: raw_array where
  "zero_array = \<lparr>keyword = ''KEY     '', type = ''INTE'', count = 0, body = []\<rparr>"

definition bad_type_file :: "byte list" where
  "bad_type_file =
     [CHR 0x00, CHR 0x00, CHR 0x00, CHR 0x10] @ ''KEY     ''
       @ [CHR 0x00, CHR 0x00, CHR 0x00, CHR 0x00] @ ''XXXX''
       @ [CHR 0x00, CHR 0x00, CHR 0x00, CHR 0x10]"

definition minus_one_file :: "byte list" where
  "minus_one_file =
     [CHR 0x00, CHR 0x00, CHR 0x00, CHR 0x10] @ ''KEY     ''
       @ [CHR 0xFF, CHR 0xFF, CHR 0xFF, CHR 0xFF] @ ''XXXX''
       @ [CHR 0x00, CHR 0x00, CHR 0x00, CHR 0x10]"

definition minus_one_array :: raw_array where
  "minus_one_array = \<lparr>keyword = ''KEY     '', type = ''XXXX'', count = - 1, body = []\<rparr>"


text \<open>
  Broken framing: two stray bytes, a header record cut short, a header record and a body
  record whose tail is not their head, and a body record cut short.
\<close>

definition stray_file :: "byte list" where
  "stray_file = [CHR 0x00, CHR 0x00]"

definition cut_header_file :: "byte list" where
  "cut_header_file = [CHR 0x00, CHR 0x00, CHR 0x00, CHR 0x10] @ ''KEY     ''"

definition mismatch_header_file :: "byte list" where
  "mismatch_header_file =
     [CHR 0x00, CHR 0x00, CHR 0x00, CHR 0x10] @ ''KEY     ''
       @ [CHR 0x00, CHR 0x00, CHR 0x00, CHR 0x00] @ ''INTE''
       @ [CHR 0x00, CHR 0x00, CHR 0x00, CHR 0x11]"

definition mismatch_body :: "byte list" where
  "mismatch_body =
     [CHR 0x00, CHR 0x00, CHR 0x00, CHR 0x04]
       @ [CHR 0x00, CHR 0x00, CHR 0x00, CHR 0x01]
       @ [CHR 0x00, CHR 0x00, CHR 0x00, CHR 0x05]"

definition cut_body :: "byte list" where
  "cut_body =
     [CHR 0x00, CHR 0x00, CHR 0x00, CHR 0x04]
       @ [CHR 0x00, CHR 0x00, CHR 0x00, CHR 0x01]
       @ [CHR 0x00, CHR 0x00]"

definition closed_reader :: "byte list \<Rightarrow> raw_array \<Rightarrow> stream_reader" where
  "closed_reader rest a = \<lparr>stream = rest, last_array = a, ungetted = False\<rparr>"

text \<open>
  A summary data file of two report steps, each a \<open>SEQHDR\<close> array followed by one
  \<open>MINISTEP\<close> (0, then 1) and one \<open>PARAMS\<close> array holding the single value 5.2.
\<close>

definition seqhdr_bytes :: "byte list" where
  "seqhdr_bytes =
     [CHR 0x00, CHR 0x00, CHR 0x00, CHR 0x10] @ ''SEQHDR  ''
       @ [CHR 0x00, CHR 0x00, CHR 0x00, CHR 0x01] @ ''INTE''
       @ [CHR 0x00, CHR 0x00, CHR 0x00, CHR 0x10]
     @ [CHR 0x00, CHR 0x00, CHR 0x00, CHR 0x04]
       @ [CHR 0x00, CHR 0x00, CHR 0x00, CHR 0x00]
       @ [CHR 0x00, CHR 0x00, CHR 0x00, CHR 0x04]"

definition ministep_bytes :: "byte \<Rightarrow> byte list" where
  "ministep_bytes n =
     [CHR 0x00, CHR 0x00, CHR 0x00, CHR 0x10] @ ''MINISTEP''
       @ [CHR 0x00, CHR 0x00, CHR 0x00, CHR 0x01] @ ''INTE''
       @ [CHR 0x00, CHR 0x00, CHR 0x00, CHR 0x10]
     @ [CHR 0x00, CHR 0x00, CHR 0x00, CHR 0x04]
       @ [CHR 0x00, CHR 0x00, CHR 0x00, n]
       @ [CHR 0x00, CHR 0x00, CHR 0x00, CHR 0x04]"

definition params_bytes :: "byte list" where
  "params_bytes =
     [CHR 0x00, CHR 0x00, CHR 0x00, CHR 0x10] @ ''PARAMS  ''
       @ [CHR 0x00, CHR 0x00, CHR 0x00, CHR 0x01] @ ''REAL''
       @ [CHR 0x00, CHR 0x00, CHR 0x00, CHR 0x10]
     @ [CHR 0x00, CHR 0x00, CHR 0x00, CHR 0x04]
       @ [CHR 0x40, CHR 0xA6, CHR 0x66, CHR 0x66]
       @ [CHR 0x00, CHR 0x00, CHR 0x00, CHR 0x04]"

definition two_step_file :: "byte list" where
  "two_step_file =
     seqhdr_bytes @ ministep_bytes (CHR 0x00) @ params_bytes
     @ seqhdr_bytes @ ministep_bytes (CHR 0x01) @ params_bytes"

text \<open>The \<open>report_step\<close> column of a row: its first integer.\<close>

definition row_report_step :: "byte list \<Rightarrow> int" where
  "row_report_step row = sint (load_int32 (take 4 row))"

definition void_keywords :: "string list" where
  "void_keywords = [''WWPR    '', ''WWPR    '', ''WOPR    '']"

definition void_wgnames :: "string list" where
  "void_wgnames = [''W1      '', '':+:+:+:+'', ''W1      '']"

definition dup_keywords :: "string list" where
  "dup_keywords = [''WOPR    '', ''WOPR    '']"

definition dup_wgnames :: "string list" where
  "dup_wgnames = [''W1      '', ''W1      '']"

section \<open>Properties of the classifier\<close>

lemmas id_defs = WGNAMES_def NUMS_def LGRS_def NUMLX_def NUMLY_def NUMLZ_def

text \<open>
  C7. The spot checks of the classifier table.
\<close>

theorem identifies_spot_check:
  "ecl3_params_identifies WGNAMES ''WOPR    '' = 1
   \<and> ecl3_params_identifies NUMS ''WOPR    '' = 0
   \<and> ecl3_params_identifies WGNAMES ''COFR    '' = 2
   \<and> ecl3_params_identifies NUMS ''COFR    '' = 2
   \<and> ecl3_params_identifies WGNAMES ''NEWTON  '' = 0
   \<and> ecl3_params_identifies NUMS ''BPR     '' = 1"
  by (simp add: ecl3_params_identifies_def id_defs)

text \<open>
  C2. On the keyword \<open>LCOFR\<close> the classifier is positive for five of the six specifiers
  and answers 4 for each of them: the number of qualifying specifiers is not the value
  returned.
\<close>

theorem identifies_LC_count:
  "map (\<lambda>S. ecl3_params_identifies S ''LCOFR   '') ecl3_params_partial_identifiers
     = [4, 0, 4, 4, 4, 4]
   \<and> length (filter (\<lambda>S. ecl3_params_identifies S ''LCOFR   '' > 0)
               ecl3_params_partial_identifiers) = 5"
  by (simp add: ecl3_params_identifies_def id_defs ecl3_params_partial_identifiers_def)

lemma take_Cons_nth0: "take n K = x # xs \<Longrightarrow> K ! 0 = x"
  by (cases K; cases n) auto

text \<open>
  Away from the \<open>LC\<close> keywords the number of qualifying specifiers is the value returned.
\<close>

lemma identifies_consistent_not_LC:
  assumes "\<not> (K ! 0 = CHR ''L'' \<and> K ! 1 = CHR ''C'')"
  shows "\<forall>S \<in> set ecl3_params_partial_identifiers.
           ecl3_params_identifies S K > 0 \<longrightarrow>
           int (length (filter (\<lambda>S. ecl3_params_identifies S K > 0)
                          ecl3_params_partial_identifiers))
             = ecl3_params_identifies S K"
  unfolding ecl3_params_partial_identifiers_def id_defs
  using assms
  apply (simp add: ecl3_params_identifies_def id_defs Let_def)
  apply (auto dest: take_Cons_nth0)
  done

section \<open>Properties of the column plan\<close>

lemma void_columns_eval:
  "columns void_keywords void_wgnames [0, 0, 0] [] [] [] [] '':''
     = Inr ([''WWPR    :W1      '', ''WOPR    :W1      ''], [0, 2])"
  by code_simp

lemma dup_columns_eval:
  "columns dup_keywords dup_wgnames [0, 0] [] [] [] [] '':''
     = Inr ([''WOPR    :W1      ''], [0])"
  by code_simp

lemma void_names_eval:
  "column_name void_keywords void_wgnames [0, 0, 0] [] [] [] [] '':'' 0 = Some ''WWPR    :W1      ''"
  "column_name void_keywords void_wgnames [0, 0, 0] [] [] [] [] '':'' (Suc 0) = None"
  "column_name void_keywords void_wgnames [0, 0, 0] [] [] [] [] '':'' 2 = Some ''WOPR    :W1      ''"
  by code_simp+

lemma void_spec_eval:
  "spec_void_column void_keywords void_wgnames [0, 0, 0] [] [] [] [] 1"
  "\<not> spec_void_column void_keywords void_wgnames [0, 0, 0] [] [] [] [] 2"
  by code_simp+

lemma dup_names_eval:
  "column_name dup_keywords dup_wgnames [0, 0] [] [] [] [] '':'' 1 = Some ''WOPR    :W1      ''"
  by code_simp

lemma dup_spec_eval:
  "\<not> spec_void_column dup_keywords dup_wgnames [0, 0] [] [] [] [] 1"
  by code_simp

lemma example_lengths: "length void_keywords = 3" "length dup_keywords = 2"
  by (simp_all add: void_keywords_def dup_keywords_def)

lemma first_named_ex:
  assumes "i < k" "f i = Some nm"
  shows "\<exists>j<k. first_named f j \<and> f j = Some nm"
proof -
  define j where "j = (LEAST j. f j = Some nm)"
  have a: "f j = Some nm" unfolding j_def using assms(2) by (rule LeastI)
  have b: "j \<le> i" unfolding j_def using assms(2) by (rule Least_le)
  have c: "\<And>l. l < j \<Longrightarrow> f l \<noteq> Some nm" unfolding j_def by (auto dest: not_less_Least)
  show ?thesis using a b c assms(1) by (auto simp: first_named_def intro!: exI[of _ j])
qed

lemma columns_fold_char:
  "foldl (columns_step f) ([], []) [0..<k] =
     (map (\<lambda>i. the (f i)) (filter (first_named f) [0..<k]),
      map int (filter (first_named f) [0..<k]))"
proof (induction k)
  case 0
  then show ?case by simp
next
  case (Suc k)
  show ?case
  proof (cases "f k")
    case None
    then show ?thesis using Suc by (simp add: columns_step_def first_named_def)
  next
    case (Some nm)
    have mem: "nm \<in> set (map (\<lambda>i. the (f i)) (filter (first_named f) [0..<k])) \<longleftrightarrow> (\<exists>j<k. f j = Some nm)"
    proof
      assume "nm \<in> set (map (\<lambda>i. the (f i)) (filter (first_named f) [0..<k]))"
      then obtain i where "i < k" "first_named f i" "nm = the (f i)" by auto
      then show "\<exists>j<k. f j = Some nm" by (auto simp: first_named_def)
    next
      assume "\<exists>j<k. f j = Some nm"
      then obtain i where "i < k" "f i = Some nm" by auto
      from first_named_ex[of i k f nm, OF this] obtain j where "j < k" "first_named f j" "f j = Some nm" by auto
      then show "nm \<in> set (map (\<lambda>i. the (f i)) (filter (first_named f) [0..<k]))"
        by (auto simp: image_iff intro!: bexI[of _ j])
    qed
    have fn: "first_named f k \<longleftrightarrow> \<not> (\<exists>j<k. f j = Some nm)"
      using Some by (auto simp: first_named_def)
    show ?thesis using Suc Some mem fn by (simp add: columns_step_def)
  qed
qed


lemma column_name_None_iff:
  "column_name kws wg nums lgrs nx ny nz sep i = None
     \<longleftrightarrow> spec_void_column kws wg nums lgrs nx ny nz i"
  unfolding column_name_def spec_void_column_def qualify_str_def qualify_int_def
    is_void_str_def is_void_int_def Let_def
  by (simp split: option.splits)

lemma columns_plan:
  assumes "columns kws wg nums lgrs nx ny nz sep = Inr (names, pos)"
  defines "f \<equiv> column_name kws wg nums lgrs nx ny nz sep"
  shows "names = map (\<lambda>i. the (f i)) (filter (first_named f) [0..<length kws])"
    and "pos = map int (filter (first_named f) [0..<length kws])"
  using assms by (auto simp: columns_def columns_fold_char split: if_splits)

lemma first_named_inj:
  "inj_on (\<lambda>i. the (f i)) (set (filter (first_named f) [0..<n]))"
proof (rule inj_onI)
  fix i j
  assume i: "i \<in> set (filter (first_named f) [0..<n])"
    and j: "j \<in> set (filter (first_named f) [0..<n])"
    and eq: "the (f i) = the (f j)"
  from i j eq have "f i = f j" by (auto simp: first_named_def)
  with i j show "i = j"
    by (cases i j rule: linorder_cases) (auto simp: first_named_def)
qed

lemma columns_part_002_fold_char:
  "foldl (columns_step_part_002 f) ([], []) [0..<k] =
     (map (\<lambda>i. the (f i)) (filter (\<lambda>i. f i \<noteq> None) [0..<k]),
      map int (filter (\<lambda>i. f i \<noteq> None) [0..<k]))"
  by (induction k) (auto simp: columns_step_part_002_def split: option.splits)

lemma columns_part_002_plan:
  assumes "columns_part_002 kws wg nums lgrs nx ny nz sep = Inr (names, pos)"
  defines "f \<equiv> column_name_part_002 kws wg nums lgrs nx ny nz sep"
  shows "names = map (\<lambda>i. the (f i)) (filter (\<lambda>i. f i \<noteq> None) [0..<length kws])"
    and "pos = map int (filter (\<lambda>i. f i \<noteq> None) [0..<length kws])"
  using assms by (auto simp: columns_part_002_def columns_part_002_fold_char split: if_splits)

lemma dup_columns_part_002_eval:
  "columns_part_002 dup_keywords dup_wgnames [0, 0] [] [] [] [] '':''
     = Inr ([''WOPR    :W1      '', ''WOPR    :W1      ''], [0, 1])"
  by code_simp

lemma dup_names_part_002_eval:
  "column_name_part_002 dup_keywords dup_wgnames [0, 0] [] [] [] [] '':'' 1
     = Some ''WOPR    :W1      ''"
  by code_simp

text \<open>
  C9, as amended. The plan of \<open>columns\<close> with the duplicate test (\<open>part_003\<close>) has no
  repeated name; each of its entries is the first entry of the \<open>.SMSPEC\<close> arrays with
  that name, paired with that entry's index; and the name of every entry that is not
  skipped is in the plan, so a later duplicate is dropped and nothing else. The plan of
  the older \<open>columns\<close> (\<open>part_002\<close>), which has no duplicate test, holds every entry
  that is not skipped, in order and with its own index, duplicates included.
\<close>

theorem columns_dedup:
  "(columns kws wg nums lgrs nx ny nz sep = Inr (names, pos)
      \<longrightarrow> distinct names \<and> length pos = length names
         \<and> (\<forall>m<length names. \<exists>i<length kws. pos ! m = int i
               \<and> column_name kws wg nums lgrs nx ny nz sep i = Some (names ! m)
               \<and> (\<forall>j<i. column_name kws wg nums lgrs nx ny nz sep j \<noteq> Some (names ! m)))
         \<and> (\<forall>i<length kws. \<forall>nm. column_name kws wg nums lgrs nx ny nz sep i = Some nm
               \<longrightarrow> nm \<in> set names))
   \<and> (columns_part_002 kws wg nums ilgrs nx ny nz sep = Inr (allnames, allpos)
      \<longrightarrow> allnames = map (\<lambda>i. the (column_name_part_002 kws wg nums ilgrs nx ny nz sep i))
                      (filter (\<lambda>i. column_name_part_002 kws wg nums ilgrs nx ny nz sep i \<noteq> None)
                         [0..<length kws])
         \<and> allpos = map int
                    (filter (\<lambda>i. column_name_part_002 kws wg nums ilgrs nx ny nz sep i \<noteq> None)
                       [0..<length kws])
         \<and> (\<forall>i<length kws. \<forall>nm.
               column_name_part_002 kws wg nums ilgrs nx ny nz sep i = Some nm
               \<longrightarrow> (\<exists>m<length allpos. allpos ! m = int i \<and> allnames ! m = nm)))"
proof (intro conjI impI)
  assume a: "columns kws wg nums lgrs nx ny nz sep = Inr (names, pos)"
  define f where "f = column_name kws wg nums lgrs nx ny nz sep"
  define ps where "ps = filter (first_named f) [0..<length kws]"
  have names: "names = map (\<lambda>i. the (f i)) ps" and pos: "pos = map int ps"
    using columns_plan[OF a] by (simp_all add: f_def ps_def)
  show "distinct names"
    unfolding names ps_def distinct_map
    using first_named_inj[of f "length kws"] by simp
  show "length pos = length names" by (simp add: names pos)
  have e: "\<exists>i<length kws. pos ! m = int i \<and> f i = Some (names ! m)
             \<and> (\<forall>j<i. f j \<noteq> Some (names ! m))" if "m < length names" for m
  proof -
    from that have m: "m < length ps" by (simp add: names)
    then have "ps ! m \<in> set ps" by simp
    then have "ps ! m < length kws" "first_named f (ps ! m)" by (auto simp: ps_def)
    then show ?thesis using m
      by (intro exI[of _ "ps ! m"]) (auto simp: names pos first_named_def)
  qed
  then show "\<forall>m<length names. \<exists>i<length kws. pos ! m = int i
               \<and> column_name kws wg nums lgrs nx ny nz sep i = Some (names ! m)
               \<and> (\<forall>j<i. column_name kws wg nums lgrs nx ny nz sep j \<noteq> Some (names ! m))"
    unfolding f_def by blast
  have c: "nm \<in> set names" if "i < length kws" "f i = Some nm" for i nm
  proof -
    from first_named_ex[of i "length kws" f nm, OF that]
    obtain j where "j < length kws" "first_named f j" "f j = Some nm" by auto
    then show ?thesis by (auto simp: names ps_def image_iff intro!: bexI[of _ j])
  qed
  then show "\<forall>i<length kws. \<forall>nm. column_name kws wg nums lgrs nx ny nz sep i = Some nm
               \<longrightarrow> nm \<in> set names"
    unfolding f_def by blast
next
  assume a: "columns_part_002 kws wg nums ilgrs nx ny nz sep = Inr (allnames, allpos)"
  define g where "g = column_name_part_002 kws wg nums ilgrs nx ny nz sep"
  define qs where "qs = filter (\<lambda>i. g i \<noteq> None) [0..<length kws]"
  have names: "allnames = map (\<lambda>i. the (g i)) qs" and pos: "allpos = map int qs"
    using columns_part_002_plan[OF a] by (simp_all add: g_def qs_def)
  show "allnames = map (\<lambda>i. the (column_name_part_002 kws wg nums ilgrs nx ny nz sep i))
                      (filter (\<lambda>i. column_name_part_002 kws wg nums ilgrs nx ny nz sep i \<noteq> None)
                         [0..<length kws])"
    using names by (simp add: g_def qs_def)
  show "allpos = map int
                    (filter (\<lambda>i. column_name_part_002 kws wg nums ilgrs nx ny nz sep i \<noteq> None)
                       [0..<length kws])"
    using pos by (simp add: g_def qs_def)
  have k: "\<exists>m<length allpos. allpos ! m = int i \<and> allnames ! m = nm"
    if "i < length kws" "g i = Some nm" for i nm
  proof -
    from that have "i \<in> set qs" by (simp add: qs_def)
    then obtain m where m: "m < length qs" "qs ! m = i" by (auto simp: in_set_conv_nth)
    with that show ?thesis by (intro exI[of _ m]) (simp add: names pos)
  qed
  then show "\<forall>i<length kws. \<forall>nm.
               column_name_part_002 kws wg nums ilgrs nx ny nz sep i = Some nm
               \<longrightarrow> (\<exists>m<length allpos. allpos ! m = int i \<and> allnames ! m = nm)"
    unfolding g_def by blast
qed

theorem columns_dedup_witness:
  "columns dup_keywords dup_wgnames [0, 0] [] [] [] [] '':''
     = Inr ([''WOPR    :W1      ''], [0])
   \<and> distinct [''WOPR    :W1      '']
   \<and> column_name dup_keywords dup_wgnames [0, 0] [] [] [] [] '':'' 1
       = Some ''WOPR    :W1      ''
   \<and> ''WOPR    :W1      '' \<in> set [''WOPR    :W1      '']
   \<and> columns_part_002 dup_keywords dup_wgnames [0, 0] [] [] [] [] '':''
       = Inr ([''WOPR    :W1      '', ''WOPR    :W1      ''], [0, 1])
   \<and> column_name_part_002 dup_keywords dup_wgnames [0, 0] [] [] [] [] '':'' 1
       = Some ''WOPR    :W1      ''
   \<and> (\<exists>m<length [0, 1 :: int]. [0, 1 :: int] ! m = int 1
         \<and> [''WOPR    :W1      '', ''WOPR    :W1      ''] ! m = ''WOPR    :W1      '')"
proof -
  note T = columns_dedup
             [where kws = dup_keywords and wg = dup_wgnames and nums = "[0, 0]"
                and lgrs = "[]" and ilgrs = "[]" and nx = "[]" and ny = "[]" and nz = "[]"
                and sep = "'':''"
                and names = "[''WOPR    :W1      '']" and pos = "[0]"
                and allnames = "[''WOPR    :W1      '', ''WOPR    :W1      '']"
                and allpos = "[0, 1]"]
  note A = T [THEN conjunct1, rule_format, OF dup_columns_eval]
  note B = T [THEN conjunct2, rule_format, OF dup_columns_part_002_eval]
  from A have d: "distinct [''WOPR    :W1      '']" by blast
  from A have "\<forall>i<length dup_keywords. \<forall>nm.
      column_name dup_keywords dup_wgnames [0, 0] [] [] [] [] '':'' i = Some nm
        \<longrightarrow> nm \<in> set [''WOPR    :W1      '']" by blast
  then have m: "''WOPR    :W1      '' \<in> set [''WOPR    :W1      '']"
    using dup_names_eval example_lengths(2) by simp
  have k: "\<exists>m<length [0, 1 :: int]. [0, 1 :: int] ! m = int 1
         \<and> [''WOPR    :W1      '', ''WOPR    :W1      ''] ! m = ''WOPR    :W1      ''"
    using B [THEN conjunct2, THEN conjunct2, rule_format, of 1 "''WOPR    :W1      ''"]
      dup_names_part_002_eval example_lengths(2)
    by simp
  show ?thesis
    using dup_columns_eval d dup_names_eval m dup_columns_part_002_eval
      dup_names_part_002_eval k
    by blast
qed

text \<open>
  C9 as stated fails for the older \<open>columns\<close>: two \<open>WOPR\<close> entries of well \<open>W1\<close> give
  a plan with the same name twice.
\<close>

theorem columns_dedup_counterexample:
  "columns_part_002 dup_keywords dup_wgnames [0, 0] [] [] [] [] '':''
     = Inr ([''WOPR    :W1      '', ''WOPR    :W1      ''], [0, 1])
   \<and> \<not> distinct [''WOPR    :W1      '', ''WOPR    :W1      '']"
  using dup_columns_part_002_eval by simp

text \<open>
  C8, as amended. An entry with a void qualifier is not in the plan. An entry none of
  whose qualifiers is void, and whose name no earlier entry has, is in the plan with its
  own index and its name.
\<close>

theorem columns_void_filter:
  assumes "columns kws wg nums lgrs nx ny nz sep = Inr (names, pos)"
  shows "\<forall>i<length kws.
           (spec_void_column kws wg nums lgrs nx ny nz i \<longrightarrow> int i \<notin> set pos)
         \<and> (\<not> spec_void_column kws wg nums lgrs nx ny nz i
              \<and> (\<forall>j<i. column_name kws wg nums lgrs nx ny nz sep j
                          \<noteq> column_name kws wg nums lgrs nx ny nz sep i)
            \<longrightarrow> (\<exists>m<length pos. pos ! m = int i
                   \<and> column_name kws wg nums lgrs nx ny nz sep i = Some (names ! m)))"
proof (intro allI impI conjI)
  fix i
  assume i: "i < length kws"
  define f where "f = column_name kws wg nums lgrs nx ny nz sep"
  define ps where "ps = filter (first_named f) [0..<length kws]"
  have names: "names = map (\<lambda>i. the (f i)) ps" and pos: "pos = map int ps"
    using columns_plan[OF assms] by (simp_all add: f_def ps_def)
  {
    assume "spec_void_column kws wg nums lgrs nx ny nz i"
    then have "f i = None" by (simp add: f_def column_name_None_iff)
    then have "i \<notin> set ps" by (auto simp: ps_def first_named_def)
    then show "int i \<notin> set pos" by (auto simp: pos)
  }
  {
    assume a: "\<not> spec_void_column kws wg nums lgrs nx ny nz i
              \<and> (\<forall>j<i. column_name kws wg nums lgrs nx ny nz sep j
                          \<noteq> column_name kws wg nums lgrs nx ny nz sep i)"
    then have "f i \<noteq> None" by (simp add: f_def column_name_None_iff)
    with a have "first_named f i" by (simp add: first_named_def f_def)
    with i have "i \<in> set ps" by (simp add: ps_def)
    then obtain m where m: "m < length ps" "ps ! m = i" by (auto simp: in_set_conv_nth)
    with \<open>f i \<noteq> None\<close> show "\<exists>m<length pos. pos ! m = int i
                   \<and> column_name kws wg nums lgrs nx ny nz sep i = Some (names ! m)"
      by (intro exI[of _ m]) (auto simp: names pos f_def)
  }
qed

theorem columns_void_filter_witness:
  "columns void_keywords void_wgnames [0, 0, 0] [] [] [] [] '':''
     = Inr ([''WWPR    :W1      '', ''WOPR    :W1      ''], [0, 2])
   \<and> spec_void_column void_keywords void_wgnames [0, 0, 0] [] [] [] [] 1
   \<and> int 1 \<notin> set [0, 2]
   \<and> \<not> spec_void_column void_keywords void_wgnames [0, 0, 0] [] [] [] [] 2
   \<and> int 2 \<in> set [0, 2]"
proof -
  note T = columns_void_filter [OF void_columns_eval, rule_format]
  have a: "int 1 \<notin> set [0, 2]"
    using T [of 1] void_spec_eval(1) example_lengths(1) by simp
  have "\<forall>j<2. column_name void_keywords void_wgnames [0, 0, 0] [] [] [] [] '':'' j
           \<noteq> column_name void_keywords void_wgnames [0, 0, 0] [] [] [] [] '':'' 2"
    using void_names_eval by (simp add: less_2_cases_iff)
  then have "\<exists>m<length [0, 2 :: int]. [0, 2] ! m = int 2
         \<and> column_name void_keywords void_wgnames [0, 0, 0] [] [] [] [] '':'' 2
             = Some ([''WWPR    :W1      '', ''WOPR    :W1      ''] ! m)"
    using T [of 2] void_spec_eval(2) example_lengths(1) by simp
  then have b: "int 2 \<in> set [0, 2]" by simp
  show ?thesis using void_columns_eval void_spec_eval a b by simp
qed

text \<open>
  C8 as stated fails on a duplicate: the second \<open>WOPR\<close> of well \<open>W1\<close> has no void
  qualifier and is not in the plan.
\<close>

theorem columns_void_filter_counterexample:
  "columns dup_keywords dup_wgnames [0, 0] [] [] [] [] '':''
     = Inr ([''WOPR    :W1      ''], [0])
   \<and> \<not> spec_void_column dup_keywords dup_wgnames [0, 0] [] [] [] [] 1
   \<and> int 1 \<notin> set [0]"
  using dup_columns_eval dup_spec_eval by simp

section \<open>Properties of the array reader\<close>

lemma get_native_int32_be:
  "4 \<le> length src \<Longrightarrow>
   get_native_int32 src =
     push_bit 24 (of_char (src ! 0)) OR push_bit 16 (of_char (src ! 1))
       OR push_bit 8 (of_char (src ! 2)) OR of_char (src ! 3)"
  by (simp add: get_native_int32_def ecl3_get_native_def byteswap_def load_int32_def rev_nth)

lemma inte_file_next:
  "next_array (open_reader inte_file)
     = Inr (inte_array, \<lparr>stream = [], last_array = inte_array, ungetted = False\<rparr>)"
  by code_simp

text \<open>
  The four bytes of a big-endian integer, most significant first, make the word that
  \<open>ecl3_get_native\<close> composes from them.
\<close>

lemma push_bit_or_add:
  fixes x y :: nat
  assumes "x < 2 ^ n"
  shows "push_bit n y OR x = y * 2 ^ n + x"
proof -
  have x: "take_bit n x = x" using assms by (simp add: take_bit_nat_eq_self)
  have "push_bit n y AND x = 0"
  proof (rule bit_eqI)
    fix m
    have "bit x m \<Longrightarrow> m < n" by (metis x bit_take_bit_iff)
    then show "bit (push_bit n y AND x) m = bit (0 :: nat) m"
      by (auto simp: bit_simps)
  qed
  from disjunctive_add_eq_or[OF this] show ?thesis by (simp add: push_bit_eq_mult)
qed

lemma be32_nat:
  fixes a b c d :: nat
  assumes "a < 256" "b < 256" "c < 256" "d < 256"
  shows "push_bit 24 a OR push_bit 16 b OR push_bit 8 c OR d
           = 16777216 * a + 65536 * b + 256 * c + d"
proof -
  have 1: "push_bit 8 c OR d = 256 * c + d"
    using push_bit_or_add[of d 8 c] assms by simp
  have 2: "push_bit 16 b OR (256 * c + d) = 65536 * b + 256 * c + d"
    using push_bit_or_add[of "256 * c + d" 16 b] assms by simp
  have 3: "push_bit 24 a OR (65536 * b + 256 * c + d) = 16777216 * a + 65536 * b + 256 * c + d"
    using push_bit_or_add[of "65536 * b + 256 * c + d" 24 a] assms by simp
  show ?thesis by (simp add: or.assoc 1 2 3)
qed

lemma be32_word:
  "(push_bit 24 (of_char a) OR push_bit 16 (of_char b) OR push_bit 8 (of_char c) OR of_char d :: 32 word)
     = word_of_nat (16777216 * of_char a + 65536 * of_char b + 256 * of_char c + of_char d)"
proof -
  have "(push_bit 24 (of_char a) OR push_bit 16 (of_char b) OR push_bit 8 (of_char c) OR of_char d :: 32 word)
      = word_of_nat (push_bit 24 (of_char a) OR push_bit 16 (of_char b) OR push_bit 8 (of_char c) OR of_char d)"
    by (simp only: of_nat_or_eq push_bit_of_nat [symmetric] of_nat_of_char)
  then show ?thesis by (simp only: be32_nat [OF nat_of_char_less_256 nat_of_char_less_256 nat_of_char_less_256 nat_of_char_less_256])
qed

text \<open>
  C10. \<open>ecl3_array_header\<close> returns \<open>ECL3_OK\<close> for every 16-byte header, with bytes 0..7 as
  the keyword, the big-endian value of bytes 8..11 as the count and bytes 12..15 as the
  type, none of them validated; so \<open>read_head\<close> never raises \<open>header_error\<close>.
\<close>

theorem ecl3_array_header_infallible:
  assumes "length src = 16"
  shows "ecl3_array_header src =
           (ECL3_OK, take 8 src, take 4 (drop 12 src),
            word_of_nat (16777216 * of_char (src ! 8) + 65536 * of_char (src ! 9)
                           + 256 * of_char (src ! 10) + of_char (src ! 11)))
         \<and> (\<forall>r msg. read_head r \<noteq> Inl (Header_error msg))"
proof
  show "ecl3_array_header src =
           (ECL3_OK, take 8 src, take 4 (drop 12 src),
            word_of_nat (16777216 * of_char (src ! 8) + 65536 * of_char (src ! 9)
                           + 256 * of_char (src ! 10) + of_char (src ! 11)))"
  proof -
    have "ecl3_array_header src =
           (ECL3_OK, take 8 src, take 4 (drop 12 src),
            push_bit 24 (of_char (src ! 8)) OR push_bit 16 (of_char (src ! 9))
              OR push_bit 8 (of_char (src ! 10)) OR of_char (src ! 11))"
      using assms by (simp add: ecl3_array_header_def get_native_int32_be)
    then show ?thesis by (simp only: be32_word)
  qed
  show "\<forall>r msg. read_head r \<noteq> Inl (Header_error msg)"
    by (auto simp: read_head_def ecl3_array_header_def check_headtail_def Let_def
             split: option.splits prod.splits if_splits)
qed

theorem ecl3_array_header_infallible_witness:
  "length (''KEY     '' @ [CHR 0x00, CHR 0x00, CHR 0x01, CHR 0x02] @ ''INTE'') = 16
   \<and> ecl3_array_header (''KEY     '' @ [CHR 0x00, CHR 0x00, CHR 0x01, CHR 0x02] @ ''INTE'')
       = (ECL3_OK, ''KEY     '', ''INTE'', 258)"
  using ecl3_array_header_infallible
          [of "''KEY     '' @ [CHR 0x00, CHR 0x00, CHR 0x01, CHR 0x02] @ ''INTE''"]
  by simp



lemma array_body_ok:
  assumes "ecl3_array_body src ty elems chunk = (ECL3_OK, dst, cnt)"
  shows "cnt = min elems chunk \<and> ecl3_get_native src ty (nat cnt) = (ECL3_OK, dst)"
  using assms
  by (auto simp: ecl3_array_body_def Let_def split: prod.splits if_splits)

lemma read_body_loop_unfold:
  assumes "0 < remaining"
    and "0 \<le> sint (get_native_int32 (take 4 s))"
    and "8 + nat (sint (get_native_int32 (take 4 s))) \<le> length s"
  shows "read_body_loop ty blk remaining s bdy =
     (case check_headtail (take 4 s)
             (take 4 (drop (4 + nat (sint (get_native_int32 (take 4 s)))) s)) of
        Some e \<Rightarrow> Inl e
      | None \<Rightarrow>
          (case ecl3_array_body (take (nat (sint (get_native_int32 (take 4 s)))) (drop 4 s))
                  ty remaining blk of
             (err, dst, cnt) \<Rightarrow>
               if err \<noteq> ECL3_OK then Inl (Runtime_error ''error parsing array body'')
               else read_body_loop ty blk (remaining - cnt)
                      (drop (8 + nat (sint (get_native_int32 (take 4 s)))) s)
                      (bdy @ take (nat (sint (get_native_int32 (take 4 s))))
                               (dst @ replicate (nat (sint (get_native_int32 (take 4 s))))
                                        (CHR 0x00)))))"
  using assms
  by (subst read_body_loop.simps)
     (auto simp: read_def Let_def add.commute split: option.splits prod.splits)

lemma read_body_loop_step:
  assumes "0 < remaining"
    and "read_body_loop ty blk remaining s bdy = Inr (s', bdy')"
  obtains dst where
    "8 \<le> length s"
    "0 \<le> sint (get_native_int32 (take 4 s))"
    "8 + nat (sint (get_native_int32 (take 4 s))) \<le> length s"
    "check_headtail (take 4 s)
       (take 4 (drop (4 + nat (sint (get_native_int32 (take 4 s)))) s)) = None"
    "ecl3_array_body (take (nat (sint (get_native_int32 (take 4 s)))) (drop 4 s))
       ty remaining blk = (ECL3_OK, dst, min remaining blk)"
    "read_body_loop ty blk (remaining - min remaining blk)
        (drop (8 + nat (sint (get_native_int32 (take 4 s)))) s)
        (bdy @ take (nat (sint (get_native_int32 (take 4 s))))
                 (dst @ replicate (nat (sint (get_native_int32 (take 4 s)))) (CHR 0x00)))
       = Inr (s', bdy')"
proof -
  define elems where "elems = sint (get_native_int32 (take 4 s))"
  note U = assms(2)[unfolded read_body_loop.simps[of ty blk remaining s bdy]]
  from U assms(1) have a: "4 \<le> length s"
    by (auto simp: read_def split: if_splits)
  from U assms(1) a have b: "0 \<le> elems"
    by (auto simp: read_def Let_def elems_def split: if_splits)
  from U assms(1) a b have c: "nat elems \<le> length s - 4"
    by (auto simp: read_def Let_def elems_def split: if_splits)
  from U assms(1) a b c have d: "8 + nat elems \<le> length s"
    by (auto simp: read_def Let_def elems_def split: if_splits)
  note V = assms(2)[unfolded read_body_loop_unfold[OF assms(1) b[unfolded elems_def]
                                                    d[unfolded elems_def]], folded elems_def]
  from V have h: "check_headtail (take 4 s) (take 4 (drop (4 + nat elems) s)) = None"
    by (auto split: option.splits)
  obtain err dst cnt where
    ab: "ecl3_array_body (take (nat elems) (drop 4 s)) ty remaining blk = (err, dst, cnt)"
    by (cases "ecl3_array_body (take (nat elems) (drop 4 s)) ty remaining blk") auto
  from V h ab have e: "err = ECL3_OK"
    by (auto split: if_splits)
  from array_body_ok[OF ab[unfolded e]] have cnt: "cnt = min remaining blk" by simp
  from V h ab e have g: "read_body_loop ty blk (remaining - cnt) (drop (8 + nat elems) s)
        (bdy @ take (nat elems) (dst @ replicate (nat elems) (CHR 0x00))) = Inr (s', bdy')"
    by auto
  show ?thesis
    using that[of dst] a b d h ab g unfolding elems_def cnt e by simp
qed

lemma length_take_pad: "length (take n (xs @ replicate n c)) = n"
  by (simp add: min_def)

lemma read_body_loop_length_exact:
  assumes "read_body_loop ty blk remaining s bdy = Inr (s', bdy')"
    and "spec_exact_records (snd (ecl3_type_size ty)) blk remaining s"
    and "0 \<le> blk"
  shows "length bdy' = length bdy + nat remaining * snd (ecl3_type_size ty)"
  using assms(1,2)
proof (induction "length s" arbitrary: remaining s bdy rule: less_induct)
  case less
  show ?case
  proof (cases "0 < remaining")
    case False
    with less.prems show ?thesis
      by (simp add: read_body_loop.simps split: if_splits)
  next
    case True
    from read_body_loop_step[OF True less.prems(1)] obtain dst where st:
      "8 \<le> length s"
      "0 \<le> sint (get_native_int32 (take 4 s))"
      "read_body_loop ty blk (remaining - min remaining blk)
          (drop (8 + nat (sint (get_native_int32 (take 4 s)))) s)
          (bdy @ take (nat (sint (get_native_int32 (take 4 s))))
                   (dst @ replicate (nat (sint (get_native_int32 (take 4 s)))) (CHR 0x00)))
         = Inr (s', bdy')"
      by blast
    from less.prems(2) True st(1) have ex:
      "sint (get_native_int32 (take 4 s)) = min remaining blk * int (snd (ecl3_type_size ty))"
      "spec_exact_records (snd (ecl3_type_size ty)) blk (remaining - min remaining blk)
            (drop (8 + nat (min remaining blk) * snd (ecl3_type_size ty)) s)"
      by (subst (asm) spec_exact_records.simps, simp)+
    have mn: "0 \<le> min remaining blk" using True assms(3) by simp
    have el: "nat (sint (get_native_int32 (take 4 s)))
                = nat (min remaining blk) * snd (ecl3_type_size ty)"
      using ex(1) mn by (simp add: nat_mult_distrib)
    have sh: "length (drop (8 + nat (sint (get_native_int32 (take 4 s)))) s) < length s"
      using st(1) by simp
    note IH = less.hyps[OF sh st(3) ex(2)[folded el]]
    have "nat remaining = nat (min remaining blk) + nat (remaining - min remaining blk)"
      using mn by linarith
    then have "nat remaining * snd (ecl3_type_size ty)
        = nat (min remaining blk) * snd (ecl3_type_size ty)
          + nat (remaining - min remaining blk) * snd (ecl3_type_size ty)"
      by (metis add_mult_distrib)
    moreover from IH have "length bdy'
        = length bdy + nat (sint (get_native_int32 (take 4 s)))
          + nat (remaining - min remaining blk) * snd (ecl3_type_size ty)"
      by (simp only: length_append length_take_pad)
    ultimately show ?thesis using el by simp
  qed
qed


lemma block_size_pos: "0 \<le> snd (ecl3_block_size ty)"
  by (cases ty) (simp_all add: ecl3_block_size_def)

lemma get_native_int32_take4:
  "4 \<le> length src \<Longrightarrow> get_native_int32 (take 4 src) = get_native_int32 src"
  by (simp add: get_native_int32_be)

lemma next_array_fresh:
  assumes "\<not> ungetted r" "next_array r = Inr (a, r')" "count a \<noteq> - 1"
  obtains ty where
    "24 \<le> length (stream r)"
    "ecl3_typeid (type a) = Inr ty"
    "type a = take 4 (drop 16 (stream r))"
    "keyword a = take 8 (drop 4 (stream r))"
    "count a = get_native_int32 (take 4 (drop 12 (stream r)))"
    "read_body_loop ty (snd (ecl3_block_size ty)) (sint (count a)) (drop 24 (stream r)) []
       = Inr (stream r', body a)"
proof -
  have c: "get_native_int32 (take 8 (drop 12 (stream r)))
             = get_native_int32 (take 4 (drop 12 (stream r)))" if "24 \<le> length (stream r)"
    using get_native_int32_take4[of "take 8 (drop 12 (stream r))"] that by simp
  from assms c that show ?thesis
    by (auto simp: next_array_def read_head_def read_body_def read_def Let_def empty_def
                   ecl3_array_header_def drop_take
             split: if_splits sum.splits option.splits prod.splits)
qed

lemma oversize_file_next:
  "next_array (open_reader oversize_file) = Inr (oversize_array, closed_reader [] oversize_array)"
  by code_simp

lemma zero_file_next:
  "next_array (open_reader zero_file) = Inr (zero_array, closed_reader [] zero_array)"
  by code_simp

lemma bad_type_file_next:
  "next_array (open_reader bad_type_file)
     = Inl (Invalid_argument (''unknown type'' @ [CHR 0x27] @ ''XXXX'' @ [CHR 0x27]))"
  by code_simp

lemma minus_one_file_next:
  "next_array (open_reader minus_one_file)
     = Inr (minus_one_array, closed_reader [] minus_one_array)"
  by code_simp

lemma stray_file_next:
  "next_array (open_reader stray_file)
     = Inr (last_array (open_reader stray_file)\<lparr>count := - 1\<rparr>,
            closed_reader [] (last_array (open_reader stray_file)\<lparr>count := - 1\<rparr>))"
  by code_simp

lemma exact_inte: "spec_exact_records 4 1000 2 (drop 24 inte_file)"
  by code_simp

lemma read_head_long:
  assumes "24 \<le> length (stream r)"
  shows "read_head r =
     (case check_headtail (take 4 (stream r)) (take 4 (drop 20 (stream r))) of
        Some e \<Rightarrow> Inl e
      | None \<Rightarrow> Inr (r\<lparr>stream := drop 24 (stream r),
                       last_array := (last_array r)
                         \<lparr>keyword := take 8 (drop 4 (stream r)),
                          type := take 4 (drop 16 (stream r)),
                          count := get_native_int32 (take 4 (drop 12 (stream r)))\<rparr>\<rparr>))"
proof -
  have c: "get_native_int32 (take 8 (drop 12 (stream r)))
             = get_native_int32 (take 4 (drop 12 (stream r)))"
    using get_native_int32_take4[of "take 8 (drop 12 (stream r))"] assms by simp
  show ?thesis using assms c
    by (auto simp: read_head_def read_def ecl3_array_header_def drop_take Let_def
             split: option.splits)
qed

lemma read_head_short:
  "length (stream r) < 4 \<Longrightarrow>
   read_head r = Inr (r\<lparr>stream := [], last_array := (last_array r)\<lparr>count := - 1\<rparr>\<rparr>)"
  by (simp add: read_head_def read_def)

lemma read_head_cut:
  "4 \<le> length (stream r) \<Longrightarrow> length (stream r) < 24 \<Longrightarrow> read_head r = Inl Ios_failure"
  by (auto simp: read_head_def read_def split: option.splits)










text \<open>
  C3, as amended. A header record with an unknown type tag and a count other than \<open>-1\<close>
  makes \<open>next\<close> raise the invalid-argument error \<open>unknown type\<close>, at the head of
  \<open>read_body\<close> and whatever the count, 0 included; so no array with a count other than
  \<open>-1\<close> comes back with an unknown tag. A header record whose count is \<open>-1\<close> is
  returned as the end-of-stream sentinel, with the keyword and the tag of the record,
  whatever its tag: \<open>read_body\<close> is not called and the tag is not looked at.
\<close>

theorem next_array_invalid_type:
  assumes "\<not> ungetted r"
  shows "(24 \<le> length (stream r)
            \<and> take 4 (stream r) = take 4 (drop 20 (stream r))
            \<and> ecl3_typeid (take 4 (drop 16 (stream r))) = Inl e
            \<and> get_native_int32 (take 4 (drop 12 (stream r))) \<noteq> - 1
          \<longrightarrow> next_array r
                = Inl (Invalid_argument
                         (''unknown type'' @ [CHR 0x27] @ take 4 (drop 16 (stream r))
                            @ [CHR 0x27])))
         \<and> (\<forall>a r'. next_array r = Inr (a, r') \<and> count a \<noteq> - 1
                \<longrightarrow> (\<exists>ty. ecl3_typeid (type a) = Inr ty))
         \<and> (24 \<le> length (stream r)
              \<and> take 4 (stream r) = take 4 (drop 20 (stream r))
              \<and> get_native_int32 (take 4 (drop 12 (stream r))) = - 1
            \<longrightarrow> next_array r
                  = Inr ((last_array r)
                           \<lparr>keyword := take 8 (drop 4 (stream r)),
                            type := take 4 (drop 16 (stream r)),
                            count := - 1\<rparr>,
                         r\<lparr>stream := drop 24 (stream r),
                           last_array := (last_array r)
                             \<lparr>keyword := take 8 (drop 4 (stream r)),
                              type := take 4 (drop 16 (stream r)),
                              count := - 1\<rparr>\<rparr>))"
proof (intro conjI impI allI)
  assume h: "24 \<le> length (stream r)
            \<and> take 4 (stream r) = take 4 (drop 20 (stream r))
            \<and> ecl3_typeid (take 4 (drop 16 (stream r))) = Inl e
            \<and> get_native_int32 (take 4 (drop 12 (stream r))) \<noteq> - 1"
  then show "next_array r
                = Inl (Invalid_argument
                         (''unknown type'' @ [CHR 0x27] @ take 4 (drop 16 (stream r))
                            @ [CHR 0x27]))"
    using assms
    by (simp add: next_array_def read_head_long check_headtail_def empty_def read_body_def)
next
  fix a r'
  assume "next_array r = Inr (a, r') \<and> count a \<noteq> - 1"
  then show "\<exists>ty. ecl3_typeid (type a) = Inr ty"
    using next_array_fresh[OF assms, of a r'] by blast
next
  assume h: "24 \<le> length (stream r)
              \<and> take 4 (stream r) = take 4 (drop 20 (stream r))
              \<and> get_native_int32 (take 4 (drop 12 (stream r))) = - 1"
  then show "next_array r
                  = Inr ((last_array r)
                           \<lparr>keyword := take 8 (drop 4 (stream r)),
                            type := take 4 (drop 16 (stream r)),
                            count := - 1\<rparr>,
                         r\<lparr>stream := drop 24 (stream r),
                           last_array := (last_array r)
                             \<lparr>keyword := take 8 (drop 4 (stream r)),
                              type := take 4 (drop 16 (stream r)),
                              count := - 1\<rparr>\<rparr>)"
    using assms
    by (simp add: next_array_def read_head_long check_headtail_def empty_def)
qed

lemma bad_type_hyps:
  "\<not> ungetted (open_reader bad_type_file)"
  "24 \<le> length (stream (open_reader bad_type_file))"
  "take 4 (stream (open_reader bad_type_file)) = take 4 (drop 20 (stream (open_reader bad_type_file)))"
  "ecl3_typeid (take 4 (drop 16 (stream (open_reader bad_type_file)))) = Inl ECL3_INVALID_ARGS"
  "get_native_int32 (take 4 (drop 12 (stream (open_reader bad_type_file)))) \<noteq> - 1"
  "take 4 (drop 16 (stream (open_reader bad_type_file))) = ''XXXX''"
  by code_simp+

lemma inte_hyps:
  "\<not> ungetted (open_reader inte_file)"
  "count inte_array \<noteq> - 1"
  "type inte_array = ''INTE''"
  "ecl3_typeid ''INTE'' = Inr ECL3_INTE"
  by code_simp+

lemma minus_one_hyps:
  "\<not> ungetted (open_reader minus_one_file)"
  "24 \<le> length (stream (open_reader minus_one_file))"
  "take 4 (stream (open_reader minus_one_file))
     = take 4 (drop 20 (stream (open_reader minus_one_file)))"
  "get_native_int32 (take 4 (drop 12 (stream (open_reader minus_one_file)))) = - 1"
  "(last_array (open_reader minus_one_file))
     \<lparr>keyword := take 8 (drop 4 (stream (open_reader minus_one_file))),
      type := take 4 (drop 16 (stream (open_reader minus_one_file))),
      count := - 1\<rparr> = minus_one_array"
  "(open_reader minus_one_file)
     \<lparr>stream := drop 24 (stream (open_reader minus_one_file)),
      last_array := minus_one_array\<rparr> = closed_reader [] minus_one_array"
  "type minus_one_array = ''XXXX''"
  "ecl3_typeid ''XXXX'' = Inl ECL3_INVALID_ARGS"
  by code_simp+

theorem next_array_invalid_type_witness:
  "next_array (open_reader bad_type_file)
     = Inl (Invalid_argument (''unknown type'' @ [CHR 0x27] @ ''XXXX'' @ [CHR 0x27]))
   \<and> next_array (open_reader inte_file)
       = Inr (inte_array, \<lparr>stream = [], last_array = inte_array, ungetted = False\<rparr>)
   \<and> (\<exists>ty. ecl3_typeid (type inte_array) = Inr ty)
   \<and> get_native_int32 (take 4 (drop 12 (stream (open_reader minus_one_file)))) = - 1
   \<and> next_array (open_reader minus_one_file)
       = Inr (minus_one_array, closed_reader [] minus_one_array)
   \<and> ecl3_typeid (type minus_one_array) = Inl ECL3_INVALID_ARGS"
proof -
  have 1: "next_array (open_reader bad_type_file)
     = Inl (Invalid_argument (''unknown type'' @ [CHR 0x27] @ ''XXXX'' @ [CHR 0x27]))"
    using next_array_invalid_type [OF bad_type_hyps(1), of ECL3_INVALID_ARGS, THEN conjunct1]
      bad_type_hyps(2-6)
    by simp
  have 2: "\<exists>ty. ecl3_typeid (type inte_array) = Inr ty"
    using next_array_invalid_type [OF inte_hyps(1), of ECL3_INVALID_ARGS,
        THEN conjunct2, THEN conjunct1]
      inte_file_next inte_hyps(2)
    by blast
  have 3: "next_array (open_reader minus_one_file)
       = Inr (minus_one_array, closed_reader [] minus_one_array)"
    using next_array_invalid_type [OF minus_one_hyps(1), of ECL3_INVALID_ARGS,
        THEN conjunct2, THEN conjunct2]
      minus_one_hyps(2-4)
    unfolding minus_one_hyps(5) minus_one_hyps(6)
    by blast
  have 4: "ecl3_typeid (type minus_one_array) = Inl ECL3_INVALID_ARGS"
    by (simp only: minus_one_hyps(7,8))
  show ?thesis using 1 2 3 4 inte_file_next minus_one_hyps(4) by simp
qed

text \<open>
  C3 as stated fails where the header's count is \<open>-1\<close>: the array is returned as the
  end-of-stream sentinel and its tag \<open>XXXX\<close> is never looked at.
\<close>

theorem next_array_invalid_type_counterexample:
  "next_array (open_reader minus_one_file)
     = Inr (minus_one_array, closed_reader [] minus_one_array)
   \<and> ecl3_typeid (type minus_one_array) = Inl ECL3_INVALID_ARGS"
  by code_simp

text \<open>
  C5, as amended. A header record or body record whose tail differs from its head raises
  \<open>head_tail_error\<close> with both values. The end of the stream while the four bytes of a
  header record's head are read, with none or with fewer than four bytes left, gives the
  sentinel \<open>count = -1\<close>; a short read at any later place of a header or body record
  raises \<open>std::ios::failure\<close>.
\<close>

theorem next_array_framing:
  assumes "\<not> ungetted r"
  shows "(length (stream r) < 4
          \<longrightarrow> next_array r
                = Inr ((last_array r)\<lparr>count := - 1\<rparr>,
                       r\<lparr>stream := [], last_array := (last_array r)\<lparr>count := - 1\<rparr>\<rparr>))
       \<and> (4 \<le> length (stream r) \<and> length (stream r) < 24
          \<longrightarrow> next_array r = Inl Ios_failure)
       \<and> (24 \<le> length (stream r) \<and> take 4 (stream r) \<noteq> take 4 (drop 20 (stream r))
          \<longrightarrow> next_array r
                = Inl (Head_tail_error (sint (get_native_int32 (take 4 (stream r))))
                         (sint (get_native_int32 (take 4 (drop 20 (stream r)))))))
       \<and> (0 < remaining \<and> length s < 4
          \<longrightarrow> read_body_loop ty blk remaining s bdy = Inl Ios_failure)
       \<and> (0 < remaining \<and> 4 \<le> length s \<and> 0 \<le> sint (get_native_int32 (take 4 s))
            \<and> length s < 8 + nat (sint (get_native_int32 (take 4 s)))
          \<longrightarrow> read_body_loop ty blk remaining s bdy = Inl Ios_failure)
       \<and> (0 < remaining \<and> 0 \<le> sint (get_native_int32 (take 4 s))
            \<and> 8 + nat (sint (get_native_int32 (take 4 s))) \<le> length s
            \<and> take 4 s \<noteq> take 4 (drop (4 + nat (sint (get_native_int32 (take 4 s)))) s)
          \<longrightarrow> read_body_loop ty blk remaining s bdy
                = Inl (Head_tail_error (sint (get_native_int32 (take 4 s)))
                         (sint (get_native_int32
                                  (take 4 (drop (4 + nat (sint (get_native_int32 (take 4 s)))) s))))))"
proof (intro conjI impI)
  assume "length (stream r) < 4"
  then show "next_array r
                = Inr ((last_array r)\<lparr>count := - 1\<rparr>,
                       r\<lparr>stream := [], last_array := (last_array r)\<lparr>count := - 1\<rparr>\<rparr>)"
    using assms by (simp add: next_array_def read_head_short empty_def)
next
  assume "4 \<le> length (stream r) \<and> length (stream r) < 24"
  then show "next_array r = Inl Ios_failure"
    using assms by (simp add: next_array_def read_head_cut)
next
  assume "24 \<le> length (stream r) \<and> take 4 (stream r) \<noteq> take 4 (drop 20 (stream r))"
  then show "next_array r
                = Inl (Head_tail_error (sint (get_native_int32 (take 4 (stream r))))
                         (sint (get_native_int32 (take 4 (drop 20 (stream r))))))"
    using assms by (simp add: next_array_def read_head_long check_headtail_def Let_def)
next
  assume "0 < remaining \<and> length s < 4"
  then show "read_body_loop ty blk remaining s bdy = Inl Ios_failure"
    by (simp add: read_body_loop.simps[of ty blk remaining s bdy] read_def)
next
  assume "0 < remaining \<and> 4 \<le> length s \<and> 0 \<le> sint (get_native_int32 (take 4 s))
            \<and> length s < 8 + nat (sint (get_native_int32 (take 4 s)))"
  then show "read_body_loop ty blk remaining s bdy = Inl Ios_failure"
    by (auto simp: read_body_loop.simps[of ty blk remaining s bdy] read_def Let_def
             split: option.splits)
next
  assume "0 < remaining \<and> 0 \<le> sint (get_native_int32 (take 4 s))
            \<and> 8 + nat (sint (get_native_int32 (take 4 s))) \<le> length s
            \<and> take 4 s \<noteq> take 4 (drop (4 + nat (sint (get_native_int32 (take 4 s)))) s)"
  then show "read_body_loop ty blk remaining s bdy
                = Inl (Head_tail_error (sint (get_native_int32 (take 4 s)))
                         (sint (get_native_int32
                                  (take 4 (drop (4 + nat (sint (get_native_int32 (take 4 s)))) s)))))"
    by (auto simp: read_body_loop.simps[of ty blk remaining s bdy] read_def Let_def
                   check_headtail_def add.commute
             split: option.splits)
qed

lemma framing_hyps:
  "\<not> ungetted (open_reader stray_file)"
  "length (stream (open_reader stray_file)) < 4"
  "\<not> ungetted (open_reader cut_header_file)"
  "4 \<le> length (stream (open_reader cut_header_file))
     \<and> length (stream (open_reader cut_header_file)) < 24"
  "\<not> ungetted (open_reader mismatch_header_file)"
  "24 \<le> length (stream (open_reader mismatch_header_file))
     \<and> take 4 (stream (open_reader mismatch_header_file))
         \<noteq> take 4 (drop 20 (stream (open_reader mismatch_header_file)))"
  "sint (get_native_int32 (take 4 (stream (open_reader mismatch_header_file)))) = 16"
  "sint (get_native_int32 (take 4 (drop 20 (stream (open_reader mismatch_header_file))))) = 17"
  by code_simp+

lemma framing_body_hyps:
  "(0 :: int) < 1 \<and> length stray_file < 4"
  "(0 :: int) < 1 \<and> 4 \<le> length cut_body \<and> 0 \<le> sint (get_native_int32 (take 4 cut_body))
     \<and> length cut_body < 8 + nat (sint (get_native_int32 (take 4 cut_body)))"
  "(0 :: int) < 1 \<and> 0 \<le> sint (get_native_int32 (take 4 mismatch_body))
     \<and> 8 + nat (sint (get_native_int32 (take 4 mismatch_body))) \<le> length mismatch_body
     \<and> take 4 mismatch_body
         \<noteq> take 4 (drop (4 + nat (sint (get_native_int32 (take 4 mismatch_body)))) mismatch_body)"
  "sint (get_native_int32 (take 4 mismatch_body)) = 4"
  "sint (get_native_int32 (take 4 (drop (4 + nat 4) mismatch_body))) = 5"
  by code_simp+

theorem next_array_framing_witness:
  "next_array (open_reader stray_file)
     = Inr ((last_array (open_reader stray_file))\<lparr>count := - 1\<rparr>,
            (open_reader stray_file)
              \<lparr>stream := [],
               last_array := (last_array (open_reader stray_file))\<lparr>count := - 1\<rparr>\<rparr>)
   \<and> next_array (open_reader cut_header_file) = Inl Ios_failure
   \<and> next_array (open_reader mismatch_header_file) = Inl (Head_tail_error 16 17)
   \<and> read_body_loop ECL3_INTE 1000 1 stray_file [] = Inl Ios_failure
   \<and> read_body_loop ECL3_INTE 1000 1 cut_body [] = Inl Ios_failure
   \<and> read_body_loop ECL3_INTE 1000 1 mismatch_body [] = Inl (Head_tail_error 4 5)"
proof -
  have 1: "next_array (open_reader stray_file)
     = Inr ((last_array (open_reader stray_file))\<lparr>count := - 1\<rparr>,
            (open_reader stray_file)
              \<lparr>stream := [],
               last_array := (last_array (open_reader stray_file))\<lparr>count := - 1\<rparr>\<rparr>)"
    using next_array_framing [OF framing_hyps(1), THEN conjunct1] framing_hyps(2) by blast
  have 2: "next_array (open_reader cut_header_file) = Inl Ios_failure"
    using next_array_framing [OF framing_hyps(3), THEN conjunct2, THEN conjunct1]
      framing_hyps(4) by blast
  have 3: "next_array (open_reader mismatch_header_file) = Inl (Head_tail_error 16 17)"
    using next_array_framing [OF framing_hyps(5), THEN conjunct2, THEN conjunct2, THEN conjunct1]
      framing_hyps(6) unfolding framing_hyps(7,8) by blast
  note B = next_array_framing [OF framing_hyps(1), THEN conjunct2, THEN conjunct2, THEN conjunct2]
  have 4: "read_body_loop ECL3_INTE 1000 1 stray_file [] = Inl Ios_failure"
    using B [of 1 stray_file ECL3_INTE 1000 "[]", THEN conjunct1] framing_body_hyps(1) by blast
  have 5: "read_body_loop ECL3_INTE 1000 1 cut_body [] = Inl Ios_failure"
    using B [of 1 cut_body ECL3_INTE 1000 "[]", THEN conjunct2, THEN conjunct1]
      framing_body_hyps(2) by blast
  have 6: "read_body_loop ECL3_INTE 1000 1 mismatch_body [] = Inl (Head_tail_error 4 5)"
    using B [of 1 mismatch_body ECL3_INTE 1000 "[]", THEN conjunct2, THEN conjunct2]
      framing_body_hyps(3) unfolding framing_body_hyps(4,5) by blast
  show ?thesis using 1 2 3 4 5 6 by blast
qed

text \<open>
  C5 as stated fails on two stray bytes where a header record should start: a short
  read that is not a clean end of the stream, answered with the sentinel and no error.
\<close>

theorem next_array_framing_counterexample:
  "next_array (open_reader stray_file)
     = Inr (last_array (open_reader stray_file)\<lparr>count := - 1\<rparr>,
            closed_reader [] (last_array (open_reader stray_file)\<lparr>count := - 1\<rparr>))
   \<and> length stray_file = 2"
  by code_simp

text \<open>
  C6, as amended. The body of an array that \<open>next\<close> read from the file has exactly \<open>count\<close>
  times the element size bytes when every body record holds exactly the elements decoded
  from it; an array of no elements reads no body record and has the empty body.
\<close>

theorem next_array_body_length:
  assumes "\<not> ungetted r" "next_array r = Inr (a, r')" "count a \<noteq> - 1"
  shows "\<exists>ty. ecl3_typeid (type a) = Inr ty
           \<and> (spec_exact_records (snd (ecl3_type_size ty)) (snd (ecl3_block_size ty))
                 (sint (count a)) (drop 24 (stream r))
                \<longrightarrow> length (body a) = nat (sint (count a)) * snd (ecl3_type_size ty))
           \<and> (count a = 0 \<longrightarrow> body a = [] \<and> stream r' = drop 24 (stream r))"
proof -
  from next_array_fresh[OF assms] obtain ty where f:
    "ecl3_typeid (type a) = Inr ty"
    "read_body_loop ty (snd (ecl3_block_size ty)) (sint (count a)) (drop 24 (stream r)) []
       = Inr (stream r', body a)"
    by blast
  have 2: "length (body a) = nat (sint (count a)) * snd (ecl3_type_size ty)"
    if "spec_exact_records (snd (ecl3_type_size ty)) (snd (ecl3_block_size ty))
                 (sint (count a)) (drop 24 (stream r))"
    using read_body_loop_length_exact[OF f(2) that block_size_pos] by simp
  have 3: "body a = [] \<and> stream r' = drop 24 (stream r)" if "count a = 0"
    using f(2) that by (simp add: read_body_loop.simps)
  show ?thesis using f(1) 2 3 by blast
qed

lemma body_hyps:
  "\<not> ungetted (open_reader zero_file)"
  "count zero_array \<noteq> - 1"
  "count zero_array = 0"
  "body zero_array = []"
  "snd (ecl3_type_size ECL3_INTE) = 4"
  "snd (ecl3_block_size ECL3_INTE) = 1000"
  "sint (count inte_array) = 2"
  "stream (open_reader inte_file) = inte_file"
  "length (body inte_array) = 8"
  by code_simp+

theorem next_array_body_length_witness:
  "next_array (open_reader inte_file)
     = Inr (inte_array, \<lparr>stream = [], last_array = inte_array, ungetted = False\<rparr>)
   \<and> spec_exact_records 4 1000 2 (drop 24 inte_file)
   \<and> length (body inte_array) = 2 * 4
   \<and> next_array (open_reader zero_file) = Inr (zero_array, closed_reader [] zero_array)
   \<and> body zero_array = []"
proof -
  from next_array_body_length [OF inte_hyps(1) inte_file_next inte_hyps(2)]
  obtain ty where t: "ecl3_typeid (type inte_array) = Inr ty"
    and e: "spec_exact_records (snd (ecl3_type_size ty)) (snd (ecl3_block_size ty))
                 (sint (count inte_array)) (drop 24 (stream (open_reader inte_file)))
             \<longrightarrow> length (body inte_array) = nat (sint (count inte_array)) * snd (ecl3_type_size ty)"
    by blast
  from t have ty: "ty = ECL3_INTE" by (simp add: inte_hyps(3,4))
  have 1: "length (body inte_array) = 2 * 4"
    using e exact_inte unfolding ty body_hyps(5-8) by simp
  from next_array_body_length [OF body_hyps(1) zero_file_next body_hyps(2)]
  have 2: "body zero_array = []" using body_hyps(3) by blast
  show ?thesis using inte_file_next exact_inte 1 zero_file_next 2 by blast
qed

text \<open>
  C6 as stated fails on a body record longer than its elements: one \<open>INTE\<close> element,
  a record of eight bytes, and a body of eight bytes.
\<close>

theorem next_array_body_length_counterexample:
  "next_array (open_reader oversize_file) = Inr (oversize_array, closed_reader [] oversize_array)
   \<and> ecl3_typeid (type oversize_array) = Inr ECL3_INTE
   \<and> ecl3_type_size ECL3_INTE = (ECL3_OK, 4)
   \<and> sint (count oversize_array) = 1
   \<and> length (body oversize_array) = 8"
  by code_simp

text \<open>
  A body record shorter than its elements: \<open>next\<close> returns the array with its count of
  two and a body of four bytes. In the source \<open>ecl3_array_body\<close> has then loaded four
  bytes past the buffer and stored four bytes past the body.
\<close>

lemma undersize_file_next:
  "next_array (open_reader undersize_file)
     = Inr (undersize_array, closed_reader [] undersize_array)
   \<and> sint (count undersize_array) = 2
   \<and> length (body undersize_array) = 4
   \<and> \<not> spec_exact_records 4 1000 2 (drop 24 undersize_file)"
  by code_simp

section \<open>Properties of the summary matrix assembler\<close>

lemma readall_body_row:
  "readall_body report_step pos r = Next_row r' row \<Longrightarrow> take 4 row = store_int32 report_step"
  by (auto simp: readall_body_def Let_def store_int32_def
           split: sum.splits prod.splits if_splits option.splits)

lemma readall_loop_report_step:
  assumes "readall_loop report_step pos r rows0 = Inr rows"
    and "\<forall>row \<in> set rows0. take 4 row = store_int32 report_step"
  shows "\<forall>row \<in> set rows. take 4 row = store_int32 report_step"
  using assms
proof (induction report_step pos r rows0 rule: readall_loop.induct)
  case (1 report_step pos r rows0)
  show ?case
  proof (cases "readall_body report_step pos r")
    case Break
    with "1.prems" show ?thesis by (simp add: readall_loop.simps)
  next
    case (Continue r')
    with "1.prems" "1.IH"(1) show ?thesis by (simp add: readall_loop.simps)
  next
    case (Next_row r' row)
    with "1.prems" "1.IH"(2) readall_body_row[OF Next_row] show ?thesis
      by (simp add: readall_loop.simps)
  next
    case (Throw e)
    with "1.prems" show ?thesis by (simp add: readall_loop.simps)
  qed
qed

lemma report_step_1: "sint (load_int32 (store_int32 1)) = 1"
  by code_simp

lemma readall_report_step_always_1:
  assumes "readall file pos = Inr rows"
  shows "\<forall>row \<in> set rows. row_report_step row = 1"
proof -
  from assms obtain r1 where "readall_loop 1 pos r1 [] = Inr rows"
    by (auto simp: readall_def Let_def split: sum.splits prod.splits if_splits option.splits)
  from readall_loop_report_step[OF this] show ?thesis
    by (simp add: row_report_step_def report_step_1)
qed

text \<open>
  C1. On the file of two report steps \<open>readall\<close> writes the two rows in the order of
  their \<open>MINISTEP\<close> arrays, and the \<open>report_step\<close> column of both is 1: the second
  \<open>SEQHDR\<close> does not increment it.
\<close>

theorem readall_report_step_stays_1:
  "readall two_step_file [0] =
     Inr [[CHR 0x01, CHR 0x00, CHR 0x00, CHR 0x00, CHR 0x00, CHR 0x00, CHR 0x00, CHR 0x00,
           CHR 0x66, CHR 0x66, CHR 0xA6, CHR 0x40],
          [CHR 0x01, CHR 0x00, CHR 0x00, CHR 0x00, CHR 0x01, CHR 0x00, CHR 0x00, CHR 0x00,
           CHR 0x66, CHR 0x66, CHR 0xA6, CHR 0x40]]
   \<and> map row_report_step
        [[CHR 0x01, CHR 0x00, CHR 0x00, CHR 0x00, CHR 0x00, CHR 0x00, CHR 0x00, CHR 0x00,
          CHR 0x66, CHR 0x66, CHR 0xA6, CHR 0x40],
         [CHR 0x01, CHR 0x00, CHR 0x00, CHR 0x00, CHR 0x01, CHR 0x00, CHR 0x00, CHR 0x00,
          CHR 0x66, CHR 0x66, CHR 0xA6, CHR 0x40]] = [1, 1]"
  by code_simp

end
